theory Spec2Isabelle
  imports Main
begin

section \<open>Solar tracking system: the motor-control driver and its controller\<close>

text \<open>
  A shallow embedding of \<^verbatim>\<open>linux-driver/Servo-Stepper.c\<close> (the kernel driver that owns
  the servo line and the four stepper phase lines and exposes them as the character
  devices \<^verbatim>\<open>/dev/plat_drv0\<close> .. \<^verbatim>\<open>/dev/plat_drv4\<close>) and of
  \<^verbatim>\<open>linux-driver/main.c\<close> (the user-space controller that turns \<^verbatim>\<open>SUN_DIR:\<close> lines into
  writes to those devices).

  C \<^verbatim>\<open>int\<close> values are modelled as \<^typ>\<open>int\<close>; the only arithmetic of the sources
  (the duty cycle, the step index) runs on values that a range check or a loop bound
  keeps far from the 32-bit limits. C strings are \<^typ>\<open>string\<close>, one \<^typ>\<open>char\<close> per byte.
\<close>

subsection \<open>C library and kernel library routines used by the sources\<close>

definition nl :: string where
  "nl = [CHR 0x0A]"

text \<open>The bytes of a buffer up to its first NUL: what a C routine sees as the string.\<close>

definition c_str :: "string \<Rightarrow> string" where
  "c_str buf = takeWhile (\<lambda>c. c \<noteq> CHR 0x00) buf"

text \<open>\<^verbatim>\<open>isspace\<close> in the C locale: space, \<^verbatim>\<open>\t \n \v \f \r\<close>.\<close>

definition isspace :: "char \<Rightarrow> bool" where
  "isspace c \<longleftrightarrow> c = CHR '' '' \<or> c = CHR 0x09 \<or> c = CHR 0x0A \<or> c = CHR 0x0B
     \<or> c = CHR 0x0C \<or> c = CHR 0x0D"

definition isdigit :: "char \<Rightarrow> bool" where
  "isdigit c \<longleftrightarrow> 48 \<le> (of_char c :: nat) \<and> (of_char c :: nat) \<le> 57"

definition digit_val :: "char \<Rightarrow> nat" where
  "digit_val c = of_char c - 48"

definition digit_char :: "nat \<Rightarrow> char" where
  "digit_char d = char_of (48 + d)"

text \<open>
  The \<^verbatim>\<open>%d\<close> conversion of \<^verbatim>\<open>printf\<close>/\<^verbatim>\<open>snprintf\<close>: decimal digits, most significant
  first, no leading zero, a minus sign for a negative value.
\<close>

fun dec_nat :: "nat \<Rightarrow> string" where
  "dec_nat n = (if n < 10 then [digit_char n] else dec_nat (n div 10) @ [digit_char (n mod 10)])"

declare dec_nat.simps [simp del]

definition dec :: "int \<Rightarrow> string" where
  "dec v = (if v < 0 then CHR ''-'' # dec_nat (nat (- v)) else dec_nat (nat v))"

text \<open>
  \<^verbatim>\<open>snprintf(buffer, size, ...)\<close> stores at most \<^verbatim>\<open>size - 1\<close> bytes of the formatted text
  (and a NUL after them).
\<close>

definition snprintf :: "nat \<Rightarrow> string \<Rightarrow> string" where
  "snprintf n text = take (n - 1) text"

text \<open>
  The kernel's \<^verbatim>\<open>_parse_integer\<close> in base 10: the value of the leading run of decimal
  digits and the number of digits consumed. The kernel accumulates in an unsigned 64-bit
  register and raises a sticky overflow flag; here the value is unbounded and the range
  is checked once, at the end, by \<open>kstrtoint\<close> (the flag is raised exactly when the
  unbounded value exceeds the 64-bit range, and every such value fails the final check).
\<close>

fun parse_integer :: "string \<Rightarrow> nat \<Rightarrow> nat \<Rightarrow> nat \<times> nat" where
  "parse_integer [] res rv = (res, rv)"
| "parse_integer (c # cs) res rv =
     (if isdigit c then parse_integer cs (res * 10 + digit_val c) (rv + 1) else (res, rv))"

text \<open>
  \<^verbatim>\<open>_kstrtoull\<close>: at least one digit, then an optional single newline, then the end of
  the string.
\<close>

definition kstrtoull :: "string \<Rightarrow> nat option" where
  "kstrtoull s =
     (let (res, rv) = parse_integer s 0 0 in
      if rv = 0 then None
      else (let t = drop rv s;
                t' = (case t of c # cs \<Rightarrow> if c = CHR 0x0A then cs else t | [] \<Rightarrow> t)
            in if t' = [] then Some res else None))"

text \<open>
  \<^verbatim>\<open>kstrtoint(s, 10, &value)\<close>: a leading \<^verbatim>\<open>-\<close> negates the unsigned parse of the rest; otherwise
  one leading \<^verbatim>\<open>+\<close> is skipped. The result must fit a 32-bit \<^verbatim>\<open>int\<close>. \<open>None\<close> stands for
  every non-zero return (\<^verbatim>\<open>-EINVAL\<close> and \<^verbatim>\<open>-ERANGE\<close>), which the driver does not tell apart.
\<close>

definition kstrtoint :: "string \<Rightarrow> int option" where
  "kstrtoint s =
     (case (case s of
              c # cs \<Rightarrow>
                if c = CHR ''-'' then map_option (\<lambda>n. - int n) (kstrtoull cs)
                else if c = CHR ''+'' then map_option int (kstrtoull cs)
                else map_option int (kstrtoull s)
            | [] \<Rightarrow> None) of
        None \<Rightarrow> None
      | Some v \<Rightarrow> if - 2147483648 \<le> v \<and> v \<le> 2147483647 then Some v else None)"

subsection \<open>Driver state\<close>

text \<open>Errors the driver returns (as negative return values in the source).\<close>

datatype errno = EINVAL | EFAULT | EBUSY | ENOMEM | ENODEV

text \<open>
  The timed, observable effects in the order they happen: a level written to a GPIO line,
  a kernel busy-wait (\<^verbatim>\<open>udelay\<close>) and a user-space sleep (\<^verbatim>\<open>usleep\<close>), in microseconds.
\<close>

datatype event = Gpio_set int int | Udelay int | Usleep int

text \<open>
  Everything the driver reads or changes: the module variable \<^verbatim>\<open>servo_angle\<close>, the
  level of every GPIO line, the kernel's table of requested lines (line number to the
  label of its holder), the character-device bookkeeping of \<^verbatim>\<open>plat_drv_probe\<close>, the
  timeline of events and the kernel log (one entry per \<^verbatim>\<open>pr_err\<close>/\<^verbatim>\<open>pr_info\<close> message).
\<close>

record kstate =
  servo_angle :: int
  gpio_value :: "int \<Rightarrow> int"
  requested :: "int \<rightharpoonup> string"
  region :: bool
  gpio_class :: bool
  cdevs :: "int set"
  devices :: "int set"
  timeline :: "event list"
  klog :: "string list"

definition MAX_DEVICES :: int where "MAX_DEVICES = 5"
definition SERVO_GPIO :: int where "SERVO_GPIO = 18"
definition STEPPER_GPIO_BASE :: int where "STEPPER_GPIO_BASE = 22"
definition SERVO_MIN_ANGLE :: int where "SERVO_MIN_ANGLE = 0"
definition SERVO_MAX_ANGLE :: int where "SERVO_MAX_ANGLE = 180"
definition SERVO_MIN_DUTY :: int where "SERVO_MIN_DUTY = 500"
definition SERVO_MAX_DUTY :: int where "SERVO_MAX_DUTY = 2500"
definition SERVO_PERIOD :: int where "SERVO_PERIOD = 20000"

definition servo_gpio :: int where "servo_gpio = SERVO_GPIO"
definition stepper_gpio_base :: int where "stepper_gpio_base = STEPPER_GPIO_BASE"

definition gpio_set_value :: "int \<Rightarrow> int \<Rightarrow> kstate \<Rightarrow> kstate" where
  "gpio_set_value gpio v s =
     s\<lparr>gpio_value := (gpio_value s)(gpio := v), timeline := timeline s @ [Gpio_set gpio v]\<rparr>"

definition gpio_get_value :: "int \<Rightarrow> kstate \<Rightarrow> int" where
  "gpio_get_value gpio s = gpio_value s gpio"

definition udelay :: "int \<Rightarrow> kstate \<Rightarrow> kstate" where
  "udelay us s = s\<lparr>timeline := timeline s @ [Udelay us]\<rparr>"

definition pr_err :: "string \<Rightarrow> kstate \<Rightarrow> kstate" where
  "pr_err msg s = s\<lparr>klog := klog s @ [msg]\<rparr>"

definition pr_info :: "string \<Rightarrow> kstate \<Rightarrow> kstate" where
  "pr_info msg s = s\<lparr>klog := klog s @ [msg]\<rparr>"

text \<open>
  \<^verbatim>\<open>copy_from_user(kbuf, ubuf, count)\<close>: \<open>ubuf\<close> is the run of readable bytes at the
  user pointer; the copy fails when fewer than \<open>count\<close> bytes are readable.
\<close>

definition copy_from_user :: "string \<Rightarrow> nat \<Rightarrow> string option" where
  "copy_from_user ubuf count = (if count \<le> length ubuf then Some (take count ubuf) else None)"

subsection \<open>The write handler\<close>

text \<open>
  \<^verbatim>\<open>gpio_write\<close>: \<open>minor\<close> is the minor number of the device file (\<^verbatim>\<open>int minor\<close> in the
  source), \<open>ubuf\<close> and \<open>count\<close> the user buffer and its length. The result is the number
  of bytes written or the error.
\<close>

definition duty_cycle :: "int \<Rightarrow> int" where
  "duty_cycle v = SERVO_MIN_DUTY + ((v * (SERVO_MAX_DUTY - SERVO_MIN_DUTY)) div SERVO_MAX_ANGLE)"

definition gpio_write :: "int \<Rightarrow> string \<Rightarrow> nat \<Rightarrow> kstate \<Rightarrow> (errno + nat) \<times> kstate" where
  "gpio_write minor ubuf count s =
     (if count \<ge> 32 then (Inl EINVAL, s)
      else case copy_from_user ubuf count of
        None \<Rightarrow> (Inl EFAULT, s)
      | Some kbuf \<Rightarrow>
          if minor = 0 then
            (case kstrtoint (c_str kbuf) of
               None \<Rightarrow> (Inl EINVAL, pr_err (''Invalid servo angle format'' @ nl) s)
             | Some v \<Rightarrow>
                 if v < SERVO_MIN_ANGLE \<or> v > SERVO_MAX_ANGLE then
                   (Inl EINVAL, pr_err (''Servo angle out of range ('' @ dec SERVO_MIN_ANGLE @ ''-'' @ dec SERVO_MAX_ANGLE @ '')'' @ nl) s)
                 else
                   (let d = duty_cycle v;
                        s1 = gpio_set_value servo_gpio 1 s;
                        s2 = udelay d s1;
                        s3 = gpio_set_value servo_gpio 0 s2;
                        s4 = udelay (SERVO_PERIOD - d) s3;
                        s5 = s4\<lparr>servo_angle := v\<rparr>
                    in (Inr count, pr_info (''Servo moved to '' @ dec v @ '' degrees'' @ nl) s5)))
          else if minor \<ge> 1 \<and> minor \<le> 4 then
            (case kstrtoint (c_str kbuf) of
               None \<Rightarrow> (Inl EINVAL, pr_err (''Invalid stepper value format'' @ nl) s)
             | Some v \<Rightarrow>
                 if v \<noteq> 0 \<and> v \<noteq> 1 then
                   (Inl EINVAL, pr_err (''Stepper value must be 0 or 1'' @ nl) s)
                 else
                   (Inr count, gpio_set_value (stepper_gpio_base + (minor - 1)) v s))
          else (Inl EINVAL, s))"

subsection \<open>The read handler\<close>

text \<open>
  \<^verbatim>\<open>copy_to_user(buf, kbuf, len)\<close>: \<open>writable\<close> is the number of writable bytes at the user
  pointer; the copy fails when it is less than \<open>len\<close>.
\<close>

definition copy_to_user :: "nat \<Rightarrow> string \<Rightarrow> nat \<Rightarrow> string option" where
  "copy_to_user writable kbuf len = (if len \<le> writable then Some (take len kbuf) else None)"

text \<open>
  \<^verbatim>\<open>gpio_read\<close>: \<open>f_pos\<close> is the file position on entry. The result is the bytes copied to
  the user buffer (their number is the return value) or the error, then the file position
  on exit, then the driver state. \<^verbatim>\<open>snprintf\<close> returns the length of the whole formatted
  text, which the 64-byte buffer \<open>kbuf\<close> may have cut.
\<close>

definition gpio_read :: "int \<Rightarrow> nat \<Rightarrow> nat \<Rightarrow> int \<Rightarrow> kstate \<Rightarrow> (errno + string) \<times> int \<times> kstate" where
  "gpio_read minor writable count f_pos s =
     (if f_pos > 0 then (Inr [], f_pos, s)
      else
        (case (if minor = 0 then
                 Some (''Servo angle: '' @ dec (servo_angle s) @ '' degrees'' @ nl)
               else if minor \<ge> 1 \<and> minor \<le> 4 then
                 (let v = gpio_get_value (stepper_gpio_base + (minor - 1)) s
                  in Some (''Stepper pin '' @ dec minor @ '': '' @ dec v @ nl))
               else None) of
           None \<Rightarrow> (Inl EINVAL, f_pos, s)
         | Some text \<Rightarrow>
             (let kbuf = snprintf 64 text;
                  len = length text;
                  len = (if len > count then count else len)
              in case copy_to_user writable kbuf len of
                   None \<Rightarrow> (Inl EFAULT, f_pos, s)
                 | Some out \<Rightarrow> (Inr out, f_pos + int len, s))))"

subsection \<open>Attaching the driver\<close>

text \<open>
  The kernel calls of \<^verbatim>\<open>plat_drv_probe\<close> that can fail for reasons outside the driver:
  each field gives the error of the call, \<open>None\<close> when it succeeds. A GPIO request also
  fails with \<open>EBUSY\<close> when the line is already requested.
\<close>

record probe_env =
  alloc_chrdev_region_err :: "errno option"
  class_create_err :: "errno option"
  cdev_add_err :: "int \<Rightarrow> errno option"
  gpio_request_err :: "int \<Rightarrow> errno option"

text \<open>
  \<^verbatim>\<open>gpio_request_one(gpio, GPIOF_OUT_INIT_LOW, label)\<close>: on success the line is recorded
  under the label and driven low; on failure nothing is held. The first component is the
  return value, \<open>None\<close> for 0.
\<close>

definition gpio_request_one :: "probe_env \<Rightarrow> int \<Rightarrow> string \<Rightarrow> kstate \<Rightarrow> errno option \<times> kstate" where
  "gpio_request_one env gpio label s =
     (case gpio_request_err env gpio of
        Some e \<Rightarrow> (Some e, s)
      | None \<Rightarrow>
          if requested s gpio \<noteq> None then (Some EBUSY, s)
          else (None, gpio_set_value gpio 0 (s\<lparr>requested := (requested s)(gpio \<mapsto> label)\<rparr>)))"

definition gpio_free :: "int \<Rightarrow> kstate \<Rightarrow> kstate" where
  "gpio_free gpio s = s\<lparr>requested := (requested s)(gpio := None)\<rparr>"

text \<open>
  The loop that creates the device files. It returns the error of \<^verbatim>\<open>cdev_add\<close> (if any),
  the value of the loop variable \<open>i\<close> on exit, and the state. \<^verbatim>\<open>device_create\<close> is called
  without a check of its result, and is taken to create the node.
\<close>

function create_devices :: "probe_env \<Rightarrow> int \<Rightarrow> kstate \<Rightarrow> errno option \<times> int \<times> kstate" where
  "create_devices env i s =
     (if i < MAX_DEVICES then
        (case cdev_add_err env i of
           Some e \<Rightarrow> (Some e, i, pr_err (''Failed to add cdev '' @ dec i @ nl) s)
         | None \<Rightarrow>
             create_devices env (i + 1)
               (pr_info (''Created /dev/plat_drv'' @ dec i @ nl)
                  (s\<lparr>cdevs := insert i (cdevs s), devices := insert i (devices s)\<rparr>)))
      else (None, i, s))"
  by pat_completeness auto
termination
  by (relation "measure (\<lambda>(env, i, s). nat (MAX_DEVICES - i))") auto

declare create_devices.simps [simp del]

text \<open>The loop that requests the four stepper lines, with the same three results.\<close>

function request_steppers :: "probe_env \<Rightarrow> int \<Rightarrow> kstate \<Rightarrow> errno option \<times> int \<times> kstate" where
  "request_steppers env i s =
     (if i < 4 then
        (case gpio_request_one env (stepper_gpio_base + i) ''Stepper GPIO'' s of
           (Some e, s') \<Rightarrow>
             (Some e, i, pr_err (''Failed to request Stepper GPIO '' @ dec (stepper_gpio_base + i) @ nl) s')
         | (None, s') \<Rightarrow> request_steppers env (i + 1) s')
      else (None, i, s))"
  by pat_completeness auto
termination
  by (relation "measure (\<lambda>(env, i, s). nat (4 - i))") auto

declare request_steppers.simps [simp del]

text \<open>
  The two loops of the error path, \<^verbatim>\<open>for (i = i - 1; i >= 0; i--)\<close>, entered here with the
  value \<open>i - 1\<close> already computed; each returns the final value of \<open>i\<close>.
\<close>

function free_steppers :: "int \<Rightarrow> kstate \<Rightarrow> int \<times> kstate" where
  "free_steppers i s =
     (if i \<ge> 0 then free_steppers (i - 1) (gpio_free (stepper_gpio_base + i) s) else (i, s))"
  by pat_completeness auto
termination
  by (relation "measure (\<lambda>(i, s). nat (i + 1))") auto

declare free_steppers.simps [simp del]

function destroy_devices :: "int \<Rightarrow> kstate \<Rightarrow> int \<times> kstate" where
  "destroy_devices i s =
     (if i \<ge> 0 then
        destroy_devices (i - 1) (s\<lparr>devices := devices s - {i}, cdevs := cdevs s - {i}\<rparr>)
      else (i, s))"
  by pat_completeness auto
termination
  by (relation "measure (\<lambda>(i, s). nat (i + 1))") auto

declare destroy_devices.simps [simp del]

text \<open>The code at the labels \<^verbatim>\<open>cleanup_cdev\<close> and \<^verbatim>\<open>cleanup_gpio\<close>.\<close>

definition cleanup_cdev :: "int \<Rightarrow> errno \<Rightarrow> kstate \<Rightarrow> errno option \<times> kstate" where
  "cleanup_cdev i err s =
     (let (i', s1) = destroy_devices (i - 1) s;
          s2 = s1\<lparr>gpio_class := False\<rparr>;
          s3 = s2\<lparr>region := False\<rparr>
      in (Some err, s3))"

definition cleanup_gpio :: "int \<Rightarrow> errno \<Rightarrow> kstate \<Rightarrow> errno option \<times> kstate" where
  "cleanup_gpio i err s =
     (let (i', s1) = free_steppers (i - 1) s;
          s2 = gpio_free servo_gpio s1
      in cleanup_cdev i' err s2)"

text \<open>\<^verbatim>\<open>plat_drv_probe\<close>: the return value (\<open>None\<close> for 0) and the state.\<close>

definition plat_drv_probe :: "probe_env \<Rightarrow> kstate \<Rightarrow> errno option \<times> kstate" where
  "plat_drv_probe env s0 =
     (let s = pr_info (''Probing GPIO Driver for Solar Tracking System'' @ nl) s0 in
      case alloc_chrdev_region_err env of
        Some e \<Rightarrow> (Some e, pr_err (''Failed to allocate chrdev region'' @ nl) s)
      | None \<Rightarrow>
          (let s = s\<lparr>region := True\<rparr> in
           case class_create_err env of
             Some e \<Rightarrow> (Some e, s\<lparr>region := False\<rparr>)
           | None \<Rightarrow>
               (let s = s\<lparr>gpio_class := True\<rparr> in
                case create_devices env 0 s of
                  (Some e, i, s) \<Rightarrow> cleanup_cdev i e s
                | (None, i, s) \<Rightarrow>
                    (case gpio_request_one env servo_gpio ''Servo GPIO'' s of
                       (Some e, s) \<Rightarrow>
                         cleanup_cdev i e
                           (pr_err (''Failed to request Servo GPIO '' @ dec servo_gpio @ nl) s)
                     | (None, s) \<Rightarrow>
                         (case request_steppers env 0 s of
                            (Some e, i, s) \<Rightarrow> cleanup_gpio i e s
                          | (None, i, s) \<Rightarrow>
                              (None, pr_info (''GPIO Driver successfully probed'' @ nl) s))))))"

subsection \<open>The controller process\<close>

text \<open>
  The controller's world: the kernel with the driver, which device paths \<^verbatim>\<open>open\<close> can
  open (the path's minor number, \<open>None\<close> when \<^verbatim>\<open>open\<close> fails), and what the process has
  printed (one entry per \<^verbatim>\<open>printf\<close>, \<^verbatim>\<open>fprintf(stderr, ...)\<close> or \<^verbatim>\<open>perror\<close> call; a
  \<^verbatim>\<open>perror\<close> entry is the message passed to it).
\<close>

record sys =
  kern :: kstate
  dev_node :: "string \<Rightarrow> int option"
  stdout :: "string list"
  stderr :: "string list"

definition SERVO_DEV :: string where "SERVO_DEV = ''/dev/plat_drv0''"
definition STEPPER_DEV1 :: string where "STEPPER_DEV1 = ''/dev/plat_drv1''"
definition STEPPER_DEV2 :: string where "STEPPER_DEV2 = ''/dev/plat_drv2''"
definition STEPPER_DEV3 :: string where "STEPPER_DEV3 = ''/dev/plat_drv3''"
definition STEPPER_DEV4 :: string where "STEPPER_DEV4 = ''/dev/plat_drv4''"

definition SERVO_UP_ANGLE :: int where "SERVO_UP_ANGLE = 90"
definition SERVO_DOWN_ANGLE :: int where "SERVO_DOWN_ANGLE = 45"
definition STEPPER_STEPS :: int where "STEPPER_STEPS = 50"
definition STEP_DELAY_US :: int where "STEP_DELAY_US = 2000"

definition stepSequence :: "int list list" where
  "stepSequence = [[1, 0, 0, 1], [1, 1, 0, 0], [0, 1, 1, 0], [0, 0, 1, 1]]"

definition printf :: "string \<Rightarrow> sys \<Rightarrow> sys" where
  "printf text s = s\<lparr>stdout := stdout s @ [text]\<rparr>"

definition perror :: "string \<Rightarrow> sys \<Rightarrow> sys" where
  "perror msg s = s\<lparr>stderr := stderr s @ [msg]\<rparr>"

definition usleep :: "int \<Rightarrow> sys \<Rightarrow> sys" where
  "usleep us s = s\<lparr>kern := (kern s)\<lparr>timeline := timeline (kern s) @ [Usleep us]\<rparr>\<rparr>"

text \<open>
  \<^verbatim>\<open>write(fd, buffer, strlen(buffer))\<close> on a device file of the driver: the kernel runs
  \<open>gpio_write\<close> for the file's minor number on the bytes of the buffer.
\<close>

definition sys_write :: "int \<Rightarrow> string \<Rightarrow> sys \<Rightarrow> (errno + nat) \<times> sys" where
  "sys_write minor buffer s =
     (let (r, k) = gpio_write minor buffer (length buffer) (kern s) in (r, s\<lparr>kern := k\<rparr>))"

definition moveServo :: "int \<Rightarrow> sys \<Rightarrow> int \<times> sys" where
  "moveServo angle s =
     (if angle < 0 \<or> angle > 180 then
        (- 1, s\<lparr>stderr := stderr s @ [''Error: Servo angle out of range (0-180)'' @ nl]\<rparr>)
      else case dev_node s SERVO_DEV of
        None \<Rightarrow> (- 1, perror ''Error opening servo device'' s)
      | Some fd \<Rightarrow>
          (let buffer = snprintf 16 (dec angle) in
           case sys_write fd buffer s of
             (Inl e, s') \<Rightarrow> (- 1, perror ''Error writing to servo device'' s')
           | (Inr n, s') \<Rightarrow> (0, printf (''Servo moved to '' @ dec angle @ '' degrees'' @ nl) s')))"

definition writeStepperPin :: "string \<Rightarrow> int \<Rightarrow> sys \<Rightarrow> int \<times> sys" where
  "writeStepperPin device v s =
     (case dev_node s device of
        None \<Rightarrow> (- 1, perror ''Error opening stepper device'' s)
      | Some fd \<Rightarrow>
          (let buffer = snprintf 2 (dec v) in
           case sys_write fd buffer s of
             (Inl e, s') \<Rightarrow> (- 1, perror ''Error writing to stepper device'' s')
           | (Inr n, s') \<Rightarrow> (0, s')))"

definition resetStepper :: "sys \<Rightarrow> sys" where
  "resetStepper s =
     (let s = snd (writeStepperPin STEPPER_DEV1 0 s);
          s = snd (writeStepperPin STEPPER_DEV2 0 s);
          s = snd (writeStepperPin STEPPER_DEV3 0 s);
          s = snd (writeStepperPin STEPPER_DEV4 0 s)
      in s)"

text \<open>
  The step index of \<^verbatim>\<open>rotateStepper\<close>, \<^verbatim>\<open>clockwise ? (i % 4) : (3 - (i % 4))\<close>; the loop
  variable is never negative, where C's \<^verbatim>\<open>%\<close> and \<open>mod\<close> agree.
\<close>

definition stepIndex :: "int \<Rightarrow> int \<Rightarrow> int" where
  "stepIndex clockwise i = (if clockwise \<noteq> 0 then i mod 4 else 3 - (i mod 4))"

text \<open>The body of the loop of \<^verbatim>\<open>rotateStepper\<close> for one value of \<open>i\<close>.\<close>

definition rotate_step :: "int \<Rightarrow> int \<Rightarrow> sys \<Rightarrow> sys" where
  "rotate_step clockwise i s =
     (let row = stepSequence ! nat (stepIndex clockwise i);
          s = snd (writeStepperPin STEPPER_DEV1 (row ! 0) s);
          s = snd (writeStepperPin STEPPER_DEV2 (row ! 1) s);
          s = snd (writeStepperPin STEPPER_DEV3 (row ! 2) s);
          s = snd (writeStepperPin STEPPER_DEV4 (row ! 3) s)
      in usleep STEP_DELAY_US s)"

function rotate_loop :: "int \<Rightarrow> int \<Rightarrow> int \<Rightarrow> sys \<Rightarrow> sys" where
  "rotate_loop steps clockwise i s =
     (if i < steps then rotate_loop steps clockwise (i + 1) (rotate_step clockwise i s) else s)"
  by pat_completeness auto
termination
  by (relation "measure (\<lambda>(steps, clockwise, i, s). nat (steps - i))") auto

declare rotate_loop.simps [simp del]

definition rotateStepper :: "int \<Rightarrow> int \<Rightarrow> sys \<Rightarrow> int \<times> sys" where
  "rotateStepper steps clockwise s =
     (let s = rotate_loop steps clockwise 0 s;
          s = resetStepper s
      in (0, printf (''Stepper rotated '' @ dec steps @ '' steps ''
                       @ (if clockwise \<noteq> 0 then ''clockwise'' else ''counter-clockwise'') @ nl) s))"

text \<open>
  \<^verbatim>\<open>sscanf(line, "SUN_DIR:%31s", direction) == 1\<close>: the eight characters of the prefix
  must match the start of the line; \<^verbatim>\<open>%31s\<close> then skips white space and stores the
  following run of characters that are not white space, 31 of them at most; the
  conversion fails when the line ends before any such character.
\<close>

definition parseSunDirection :: "string \<Rightarrow> string option" where
  "parseSunDirection line =
     (let l = c_str line in
      if take 8 l = ''SUN_DIR:'' then
        (let direction = take 31 (takeWhile (\<lambda>c. \<not> isspace c) (dropWhile isspace (drop 8 l)))
         in if direction = [] then None else Some direction)
      else None)"

text \<open>
  \<^verbatim>\<open>fgets(line, n, stream)\<close> on the bytes still to come: at most \<open>n - 1\<close> bytes, up to and
  with the first newline; the line and the rest of the stream, \<open>None\<close> at the end of the
  stream.
\<close>

fun fgets_split :: "nat \<Rightarrow> string \<Rightarrow> string \<times> string" where
  "fgets_split 0 cs = ([], cs)"
| "fgets_split (Suc n) [] = ([], [])"
| "fgets_split (Suc n) (c # cs) =
     (if c = CHR 0x0A then ([c], cs)
      else (let (l, r) = fgets_split n cs in (c # l, r)))"

definition fgets :: "nat \<Rightarrow> string \<Rightarrow> (string \<times> string) option" where
  "fgets n input = (if input = [] then None else Some (fgets_split (n - 1) input))"

text \<open>\<^verbatim>\<open>line[strcspn(line, "\r\n")] = 0\<close>: the line up to its first CR or LF.\<close>

definition strip_newline :: "string \<Rightarrow> string" where
  "strip_newline line = takeWhile (\<lambda>c. c \<noteq> CHR 0x0D \<and> c \<noteq> CHR 0x0A) (c_str line)"

text \<open>
  The literal the source compares with for the accented spelling: the bytes
  \<^verbatim>\<open>48 C3 83 C2 B8 6A 72 65\<close> of the source file.
\<close>

definition accented_literal :: string where
  "accented_literal = [CHR ''H'', CHR 0xC3, CHR 0x83, CHR 0xC2, CHR 0xB8, CHR ''j'', CHR ''r'', CHR ''e'']"

text \<open>The chain of comparisons of \<^verbatim>\<open>main\<close> on a parsed direction.\<close>

definition act :: "string \<Rightarrow> sys \<Rightarrow> sys" where
  "act direction s =
     (if direction = ''Venstre'' then
        snd (rotateStepper STEPPER_STEPS 0 (printf (''Action: Rotate LEFT'' @ nl) s))
      else if direction = accented_literal \<or> direction = ''Hojre'' then
        snd (rotateStepper STEPPER_STEPS 1 (printf (''Action: Rotate RIGHT'' @ nl) s))
      else if direction = ''Op'' then
        snd (moveServo SERVO_UP_ANGLE (printf (''Action: Tilt UP'' @ nl) s))
      else if direction = ''Ned'' then
        snd (moveServo SERVO_DOWN_ANGLE (printf (''Action: Tilt DOWN'' @ nl) s))
      else printf (''Action: Unknown direction, no movement'' @ nl) s)"

text \<open>
  One pass through the body of \<^verbatim>\<open>while (1)\<close>: the bytes of the serial stream still to
  come and the state, before and after. An unparsable line skips the rest of the body
  (\<^verbatim>\<open>continue\<close>).
\<close>

definition main_iteration :: "string \<times> sys \<Rightarrow> string \<times> sys" where
  "main_iteration = (\<lambda>(input, s).
     case fgets 256 input of
       None \<Rightarrow> (input, usleep 100000 s)
     | Some (line, rest) \<Rightarrow>
         (case parseSunDirection (strip_newline line) of
            None \<Rightarrow> (rest, s)
          | Some direction \<Rightarrow>
              (rest, usleep 100000
                       (act direction (printf (nl @ ''Received direction: '' @ direction @ nl) s)))))"

text \<open>
  The loop has no exit. \<open>main_loop n\<close> is the state after \<open>n\<close> passes; \<open>main\<close> returns
  \<open>Some 1\<close> when the serial port cannot be opened (\<open>serial = None\<close>; the message on
  \<^verbatim>\<open>stderr\<close> is recorded without its \<^verbatim>\<open>strerror\<close> part) and has no return value otherwise.
\<close>

fun main_loop :: "nat \<Rightarrow> string \<times> sys \<Rightarrow> string \<times> sys" where
  "main_loop 0 st = st"
| "main_loop (Suc n) st = main_loop n (main_iteration st)"

definition SERIAL_PORT :: string where "SERIAL_PORT = ''/dev/ttyS0''"

definition main :: "string option \<Rightarrow> nat \<Rightarrow> sys \<Rightarrow> int option \<times> sys" where
  "main serial n s0 =
     (let s = printf (''=== Solar Tracking Motor Control ==='' @ nl) s0;
          s = printf (''Opening serial port: '' @ SERIAL_PORT @ nl) s
      in case serial of
           None \<Rightarrow>
             (Some 1, s\<lparr>stderr := stderr s @ [''Error: Cannot open serial port '' @ SERIAL_PORT]\<rparr>)
         | Some input \<Rightarrow>
             (None, snd (main_loop n (input, printf (''Listening for sun direction commands...'' @ nl) s))))"

subsection \<open>The sender of the lines\<close>

text \<open>
  The ESP32 firmware (\<^verbatim>\<open>esp32/include/Lys.h\<close>, \<^verbatim>\<open>esp32/src/main.cpp\<close>) picks the direction of
  the brightest of four light sensors and sends it on the serial line. Its word for
  "right" is written with the letter o-slash, which the source file holds in UTF-8: the
  bytes \<^verbatim>\<open>48 C3 B8 6A 72 65\<close>.
\<close>

definition hojre_utf8 :: string where
  "hojre_utf8 = [CHR ''H'', CHR 0xC3, CHR 0xB8, CHR ''j'', CHR ''r'', CHR ''e'']"

definition getSunDirection :: "int \<Rightarrow> int \<Rightarrow> int \<Rightarrow> int \<Rightarrow> string" where
  "getSunDirection left right up down =
     (let (maxIntensity, direction) = (left, ''Venstre'');
          (maxIntensity, direction) =
             (if right > maxIntensity then (right, hojre_utf8) else (maxIntensity, direction));
          (maxIntensity, direction) =
             (if up > maxIntensity then (up, ''Op'') else (maxIntensity, direction));
          (maxIntensity, direction) =
             (if down > maxIntensity then (down, ''Ned'') else (maxIntensity, direction))
      in direction)"

text \<open>\<^verbatim>\<open>RP.printf("SUN_DIR:%s\n", direction.c_str())\<close>: the line sent for a direction.\<close>

definition sun_dir_line :: "string \<Rightarrow> string" where
  "sun_dir_line direction = ''SUN_DIR:'' @ direction @ nl"

subsection \<open>Initial states\<close>

text \<open>
  The kernel when the module is loaded and before \<^verbatim>\<open>plat_drv_probe\<close> runs: \<^verbatim>\<open>servo_angle\<close>
  is 0 (its initialiser), no line is requested, nothing is registered.
\<close>

definition power_on :: kstate where
  "power_on = \<lparr>servo_angle = 0, gpio_value = (\<lambda>_. 0), requested = Map.empty, region = False,
     gpio_class = False, cdevs = {}, devices = {}, timeline = [], klog = []\<rparr>"

subsection \<open>Notions used in the statements\<close>

text \<open>
  A line can be requested: the GPIO layer reports no error for it and no one holds it.
\<close>

definition avail :: "probe_env \<Rightarrow> kstate \<Rightarrow> int \<Rightarrow> bool" where
  "avail env s g \<longleftrightarrow> gpio_request_err env g = None \<and> requested s g = None"

text \<open>
  The state of \<^verbatim>\<open>plat_drv_probe\<close> when its first loop starts: the region is allocated and
  the class created.
\<close>

definition probe_start :: "kstate \<Rightarrow> kstate" where
  "probe_start s =
     (pr_info (''Probing GPIO Driver for Solar Tracking System'' @ nl) s)
       \<lparr>region := True, gpio_class := True\<rparr>"

text \<open>An environment in which no kernel call fails for outside reasons.\<close>

definition env_ok :: probe_env where
  "env_ok = \<lparr>alloc_chrdev_region_err = None, class_create_err = None,
     cdev_add_err = (\<lambda>_. None), gpio_request_err = (\<lambda>_. None)\<rparr>"

text \<open>The kernel at module load with GPIO 24 (the third stepper line) held by another driver.\<close>

definition line_24_taken :: kstate where
  "line_24_taken = power_on\<lparr>requested := [24 \<mapsto> ''other driver'']\<rparr>"


text \<open>The values a C \<^verbatim>\<open>int\<close> can hold.\<close>

definition int32 :: "int \<Rightarrow> bool" where
  "int32 v \<longleftrightarrow> - 2147483648 \<le> v \<and> v \<le> 2147483647"

text \<open>
  The text of the state of an endpoint: the servo's last commanded angle for minor 0,
  the level of the phase line for minors 1..4.
\<close>

definition read_text :: "int \<Rightarrow> kstate \<Rightarrow> string" where
  "read_text minor s =
     (if minor = 0 then ''Servo angle: '' @ dec (servo_angle s) @ '' degrees'' @ nl
      else ''Stepper pin '' @ dec minor @ '': ''
             @ dec (gpio_value s (stepper_gpio_base + (minor - 1))) @ nl)"

text \<open>
  The device files of the driver as \<^verbatim>\<open>open\<close> finds them once the driver is attached, and
  the controller's world at its start: the kernel after a successful probe, nothing
  printed yet.
\<close>

definition plat_drv_nodes :: "string \<Rightarrow> int option" where
  "plat_drv_nodes path =
     (if path = SERVO_DEV then Some 0 else if path = STEPPER_DEV1 then Some 1
      else if path = STEPPER_DEV2 then Some 2 else if path = STEPPER_DEV3 then Some 3
      else if path = STEPPER_DEV4 then Some 4 else None)"

definition controller_start :: sys where
  "controller_start =
     \<lparr>kern = snd (plat_drv_probe env_ok power_on), dev_node = plat_drv_nodes,
      stdout = [], stderr = []\<rparr>"

text \<open>The four stepper device files open, each on its minor number.\<close>

definition steppers_attached :: "sys \<Rightarrow> bool" where
  "steppers_attached s \<longleftrightarrow>
     dev_node s STEPPER_DEV1 = Some 1 \<and> dev_node s STEPPER_DEV2 = Some 2
     \<and> dev_node s STEPPER_DEV3 = Some 3 \<and> dev_node s STEPPER_DEV4 = Some 4"

text \<open>
  One row of phase levels on the hardware: the four pin writes as events, and their
  effect on the driver state.
\<close>

definition phase_writes :: "int list \<Rightarrow> event list" where
  "phase_writes row =
     [Gpio_set 22 (row ! 0), Gpio_set 23 (row ! 1), Gpio_set 24 (row ! 2), Gpio_set 25 (row ! 3)]"

definition write_row :: "int list \<Rightarrow> kstate \<Rightarrow> kstate" where
  "write_row row k =
     gpio_set_value 25 (row ! 3) (gpio_set_value 24 (row ! 2)
       (gpio_set_value 23 (row ! 1) (gpio_set_value 22 (row ! 0) k)))"

section \<open>Properties\<close>

subsection \<open>Decimal text\<close>

lemma dec_0: "dec 0 = ''0''"
  by code_simp

lemma dec_1: "dec 1 = ''1''"
  by code_simp

lemma dec_180: "dec 180 = ''180''"
  by code_simp

lemma kstrtoint_180: "kstrtoint ''180'' = Some 180"
  by (simp add: kstrtoint_def kstrtoull_def isdigit_def digit_val_def)

subsection \<open>The servo write\<close>

text \<open>
  What a write to minor 0 does once the payload has passed the length check, the copy
  and the integer parse with value \<open>a\<close>.
\<close>

lemma gpio_write_servo:
  assumes "count < 32" and "copy_from_user ubuf count = Some kbuf"
    and "kstrtoint (c_str kbuf) = Some a"
  shows "gpio_write 0 ubuf count s =
     (if a < 0 \<or> a > 180 then
        (Inl EINVAL, s\<lparr>klog := klog s @ [''Servo angle out of range (0-180)'' @ nl]\<rparr>)
      else
        (Inr count,
         s\<lparr>servo_angle := a,
           gpio_value := (gpio_value s)(18 := 0),
           timeline := timeline s @
             [Gpio_set 18 1, Udelay (duty_cycle a), Gpio_set 18 0, Udelay (20000 - duty_cycle a)],
           klog := klog s @ [''Servo moved to '' @ dec a @ '' degrees'' @ nl]\<rparr>))"
  using assms
  by (simp add: gpio_write_def Let_def pr_err_def pr_info_def gpio_set_value_def udelay_def
      dec_0 dec_180 SERVO_MIN_ANGLE_def SERVO_MAX_ANGLE_def SERVO_PERIOD_def servo_gpio_def
      SERVO_GPIO_def)

lemma duty_cycle_eq: "duty_cycle a = 500 + a * (2500 - 500) div 180"
  by (simp add: duty_cycle_def SERVO_MIN_DUTY_def SERVO_MAX_DUTY_def SERVO_MAX_ANGLE_def)

lemma duty_cycle_lower: "0 \<le> a \<Longrightarrow> 500 \<le> duty_cycle a"
  by (simp add: duty_cycle_eq pos_imp_zdiv_nonneg_iff)

lemma duty_cycle_upper: "a \<le> 180 \<Longrightarrow> duty_cycle a \<le> 2500"
proof -
  assume "a \<le> 180"
  then have "a * 2000 div 180 \<le> 180 * 2000 div 180"
    by (intro zdiv_mono1) simp_all
  then show ?thesis by (simp add: duty_cycle_eq)
qed

lemma duty_cycle_below_max: "a < 180 \<Longrightarrow> duty_cycle a < 2500"
proof -
  assume "a < 180"
  then have "a * 2000 div 180 \<le> 179 * 2000 div 180"
    by (intro zdiv_mono1) simp_all
  then show ?thesis by (simp add: duty_cycle_eq)
qed

lemma duty_cycle_180: "duty_cycle 180 = 2500"
  by (simp add: duty_cycle_eq)

text \<open>
  C8. For every angle \<open>a\<close> in 0..180 written to the servo endpoint, the pulse width is
  \<open>duty = 500 + a * (2500 - 500) div 180\<close> in integer arithmetic; the servo line (GPIO 18)
  is set high, held for \<open>duty\<close> microseconds, set low and held for \<open>20000 - duty\<close>
  microseconds, and these four events are all the write adds to the timeline; \<open>duty\<close>
  lies in 500..2500 and is 2500 exactly at \<open>a = 180\<close>.
\<close>

theorem servo_pulse_width:
  assumes "count < 32" and "copy_from_user ubuf count = Some kbuf"
    and "kstrtoint (c_str kbuf) = Some a" and "0 \<le> a" and "a \<le> 180"
  shows "\<exists>duty. duty = 500 + a * (2500 - 500) div 180
           \<and> timeline (snd (gpio_write 0 ubuf count s))
               = timeline s @ [Gpio_set 18 1, Udelay duty, Gpio_set 18 0, Udelay (20000 - duty)]
           \<and> 500 \<le> duty \<and> duty \<le> 2500 \<and> (duty = 2500 \<longleftrightarrow> a = 180)"
proof -
  have "duty_cycle a = 2500 \<longleftrightarrow> a = 180"
    using duty_cycle_below_max [of a] duty_cycle_180 \<open>a \<le> 180\<close> by (cases "a = 180") auto
  moreover have "timeline (snd (gpio_write 0 ubuf count s))
      = timeline s @ [Gpio_set 18 1, Udelay (duty_cycle a), Gpio_set 18 0, Udelay (20000 - duty_cycle a)]"
    using assms by (simp add: gpio_write_servo)
  ultimately show ?thesis
    using duty_cycle_lower [OF \<open>0 \<le> a\<close>] duty_cycle_upper [OF \<open>a \<le> 180\<close>] duty_cycle_eq [of a]
    by simp
qed

theorem servo_pulse_width_witness:
  "(3::nat) < 32 \<and> copy_from_user ''180'' 3 = Some ''180'' \<and> kstrtoint (c_str ''180'') = Some 180
   \<and> timeline (snd (gpio_write 0 ''180'' 3 power_on))
       = [Gpio_set 18 1, Udelay 2500, Gpio_set 18 0, Udelay 17500]"
proof -
  have h: "copy_from_user ''180'' 3 = Some ''180''" "kstrtoint (c_str ''180'') = Some 180"
    by (simp_all add: copy_from_user_def c_str_def kstrtoint_180)
  show ?thesis
    using servo_pulse_width [of 3 "''180''" "''180''" 180 power_on] h
    by (simp add: power_on_def)
qed

text \<open>
  C2. A write to the servo endpoint (minor 0) whose payload is the integer \<open>a\<close>: for
  \<open>0 \<le> a \<le> 180\<close> it succeeds and \<^verbatim>\<open>servo_angle\<close> is \<open>a\<close> afterwards; for \<open>a\<close> outside that
  range it fails (\<^verbatim>\<open>-EINVAL\<close>, with the out-of-range message in the kernel log), no event is
  added to the timeline (no pulse), no line changes level and \<^verbatim>\<open>servo_angle\<close> keeps its
  value. The payload is any text that the length check, the copy and \<^verbatim>\<open>kstrtoint\<close> turn
  into \<open>a\<close>; the decimal text of every 32-bit \<open>a\<close> is one (\<open>dec_payload\<close> below).
\<close>

theorem servo_write_angle:
  assumes "count < 32" and "copy_from_user ubuf count = Some kbuf"
    and "kstrtoint (c_str kbuf) = Some a"
  shows "(0 \<le> a \<and> a \<le> 180 \<longrightarrow>
            fst (gpio_write 0 ubuf count s) = Inr count
          \<and> servo_angle (snd (gpio_write 0 ubuf count s)) = a)
       \<and> (a < 0 \<or> 180 < a \<longrightarrow>
            gpio_write 0 ubuf count s
              = (Inl EINVAL, s\<lparr>klog := klog s @ [''Servo angle out of range (0-180)'' @ nl]\<rparr>)
          \<and> timeline (snd (gpio_write 0 ubuf count s)) = timeline s
          \<and> gpio_value (snd (gpio_write 0 ubuf count s)) = gpio_value s
          \<and> servo_angle (snd (gpio_write 0 ubuf count s)) = servo_angle s)"
  using assms by (simp add: gpio_write_servo)

lemma kstrtoint_181: "kstrtoint ''181'' = Some 181"
  by (simp add: kstrtoint_def kstrtoull_def isdigit_def digit_val_def)

lemma kstrtoint_minus1: "kstrtoint ''-1'' = Some (- 1)"
  by (simp add: kstrtoint_def kstrtoull_def isdigit_def digit_val_def)

theorem servo_write_angle_witness:
  "fst (gpio_write 0 ''180'' 3 power_on) = Inr 3
   \<and> servo_angle (snd (gpio_write 0 ''180'' 3 power_on)) = 180
   \<and> gpio_write 0 ''181'' 3 power_on
       = (Inl EINVAL, power_on\<lparr>klog := [''Servo angle out of range (0-180)'' @ nl]\<rparr>)
   \<and> gpio_write 0 ''-1'' 2 power_on
       = (Inl EINVAL, power_on\<lparr>klog := [''Servo angle out of range (0-180)'' @ nl]\<rparr>)"
proof -
  have k: "klog power_on = []" by (simp add: power_on_def)
  have a: "copy_from_user ''180'' 3 = Some ''180''" "kstrtoint (c_str ''180'') = Some 180"
    by (simp_all add: copy_from_user_def c_str_def kstrtoint_180)
  have b: "copy_from_user ''181'' 3 = Some ''181''" "kstrtoint (c_str ''181'') = Some 181"
    by (simp_all add: copy_from_user_def c_str_def kstrtoint_181)
  have c: "copy_from_user ''-1'' 2 = Some ''-1''" "kstrtoint (c_str ''-1'') = Some (- 1)"
    by (simp_all add: copy_from_user_def c_str_def kstrtoint_minus1)
  show ?thesis
    using servo_write_angle [of 3 "''180''" "''180''" 180 power_on, OF _ a]
      servo_write_angle [of 3 "''181''" "''181''" 181 power_on, OF _ b]
      servo_write_angle [of 2 "''-1''" "''-1''" "- 1" power_on, OF _ c] k
    by simp
qed

subsection \<open>Rejected writes\<close>

lemma gpio_write_failure_keeps_state:
  "fst (gpio_write minor ubuf count s) = Inl e \<Longrightarrow>
     (snd (gpio_write minor ubuf count s))\<lparr>klog := klog s\<rparr> = s"
  by (auto simp: gpio_write_def pr_err_def Let_def split: option.splits if_splits)

lemma gpio_write_bad_minor:
  "minor < 0 \<or> 4 < minor \<Longrightarrow>
     gpio_write minor ubuf count s = (if count < 32 \<and> length ubuf < count then Inl EFAULT else Inl EINVAL, s)"
  by (auto simp: gpio_write_def copy_from_user_def)

lemma gpio_write_bad_payload:
  assumes "0 \<le> minor" "minor \<le> 4" "count < 32" "copy_from_user ubuf count = Some kbuf"
    and "kstrtoint (c_str kbuf) = None \<or> minor \<noteq> 0 \<and> kstrtoint (c_str kbuf) \<noteq> Some 0 \<and> kstrtoint (c_str kbuf) \<noteq> Some 1"
  shows "fst (gpio_write minor ubuf count s) = Inl EINVAL"
  using assms by (auto simp: gpio_write_def split: option.splits)

text \<open>
  C6. A write to a minor number outside 0..4 fails: with \<^verbatim>\<open>-EINVAL\<close> whenever the payload is
  readable, and in every case with the state exactly as before. A write to a minor in
  0..4 whose payload is not an integer, or for minors 1..4 not the integer 0 or 1, fails
  with \<^verbatim>\<open>-EINVAL\<close>. Every failing write leaves \<^verbatim>\<open>servo_angle\<close>, all line levels and the timeline
  as they were: the state differs at most in the kernel log.
\<close>

theorem write_rejections:
  "(minor < 0 \<or> 4 < minor \<longrightarrow>
      (count \<le> length ubuf \<longrightarrow> gpio_write minor ubuf count s = (Inl EINVAL, s))
    \<and> (\<exists>e. gpio_write minor ubuf count s = (Inl e, s)))
   \<and> (0 \<le> minor \<and> minor \<le> 4 \<and> count < 32 \<and> copy_from_user ubuf count = Some kbuf
        \<and> (kstrtoint (c_str kbuf) = None
            \<or> minor \<noteq> 0 \<and> kstrtoint (c_str kbuf) \<noteq> Some 0 \<and> kstrtoint (c_str kbuf) \<noteq> Some 1) \<longrightarrow>
      fst (gpio_write minor ubuf count s) = Inl EINVAL)
   \<and> (\<forall>e. fst (gpio_write minor ubuf count s) = Inl e \<longrightarrow>
        (snd (gpio_write minor ubuf count s))\<lparr>klog := klog s\<rparr> = s
      \<and> servo_angle (snd (gpio_write minor ubuf count s)) = servo_angle s
      \<and> gpio_value (snd (gpio_write minor ubuf count s)) = gpio_value s
      \<and> timeline (snd (gpio_write minor ubuf count s)) = timeline s)"
proof (intro conjI impI allI)
  fix e assume f: "fst (gpio_write minor ubuf count s) = Inl e"
  let ?s' = "snd (gpio_write minor ubuf count s)"
  from gpio_write_failure_keeps_state [OF f] have eq: "?s'\<lparr>klog := klog s\<rparr> = s" .
  show "?s'\<lparr>klog := klog s\<rparr> = s" by (rule eq)
  have "servo_angle (?s'\<lparr>klog := klog s\<rparr>) = servo_angle s"
       "gpio_value (?s'\<lparr>klog := klog s\<rparr>) = gpio_value s"
       "timeline (?s'\<lparr>klog := klog s\<rparr>) = timeline s"
    by (simp_all only: eq)
  then show "servo_angle ?s' = servo_angle s" "gpio_value ?s' = gpio_value s" "timeline ?s' = timeline s"
    by simp_all
qed (auto simp: gpio_write_bad_minor intro: gpio_write_bad_payload)


lemma kstrtoint_abc: "kstrtoint ''abc'' = None"
  by (simp add: kstrtoint_def kstrtoull_def isdigit_def digit_val_def)

lemma kstrtoint_2: "kstrtoint ''2'' = Some 2"
  by (simp add: kstrtoint_def kstrtoull_def isdigit_def digit_val_def)

theorem write_rejections_witness:
  "gpio_write 7 ''1'' 1 power_on = (Inl EINVAL, power_on)
   \<and> fst (gpio_write 0 ''abc'' 3 power_on) = Inl EINVAL
   \<and> servo_angle (snd (gpio_write 0 ''abc'' 3 power_on)) = 0
   \<and> fst (gpio_write 2 ''2'' 1 power_on) = Inl EINVAL
   \<and> timeline (snd (gpio_write 2 ''2'' 1 power_on)) = []
   \<and> gpio_value (snd (gpio_write 2 ''2'' 1 power_on)) 23 = 0"
  using write_rejections [where minor = 7 and count = 1 and ubuf = "''1''" and s = power_on]
    write_rejections [where minor = 0 and count = 3 and ubuf = "''abc''" and kbuf = "''abc''"
      and s = power_on]
    write_rejections [where minor = 2 and count = 1 and ubuf = "''2''" and kbuf = "''2''"
      and s = power_on]
  by (simp add: copy_from_user_def c_str_def kstrtoint_abc kstrtoint_2 power_on_def)

subsection \<open>Attaching: acquisition of the lines and the error paths\<close>

lemma gpio_request_one_cases:
  "gpio_request_one env g l s =
     (if avail env s g then (None, gpio_set_value g 0 (s\<lparr>requested := (requested s)(g \<mapsto> l)\<rparr>))
      else (Some (case gpio_request_err env g of Some e \<Rightarrow> e | None \<Rightarrow> EBUSY), s))"
  by (auto simp: gpio_request_one_def avail_def split: option.splits)

lemma create_devices_fields [simp]:
  "requested (snd (snd (create_devices env i s))) = requested s"
  "region (snd (snd (create_devices env i s))) = region s"
  "gpio_class (snd (snd (create_devices env i s))) = gpio_class s"
  by (induction env i s rule: create_devices.induct;
      subst create_devices.simps; simp add: pr_err_def pr_info_def split: option.splits)+

lemma destroy_devices_fields [simp]:
  "requested (snd (destroy_devices i s)) = requested s"
  "region (snd (destroy_devices i s)) = region s"
  "gpio_class (snd (destroy_devices i s)) = gpio_class s"
  by (induction i s rule: destroy_devices.induct; subst destroy_devices.simps; simp)+

lemma destroy_devices_none: "i < 0 \<Longrightarrow> destroy_devices i s = (i, s)"
  by (subst destroy_devices.simps) simp

lemma free_steppers_fields [simp]:
  "cdevs (snd (free_steppers m s)) = cdevs s"
  "devices (snd (free_steppers m s)) = devices s"
  "region (snd (free_steppers m s)) = region s"
  "gpio_class (snd (free_steppers m s)) = gpio_class s"
  by (induction m s rule: free_steppers.induct; subst free_steppers.simps; simp add: gpio_free_def)+

lemma free_steppers_index: "fst (free_steppers m s) = (if 0 \<le> m then - 1 else m)"
  by (induction m s rule: free_steppers.induct) (subst free_steppers.simps, simp)

lemma free_steppers_requested:
  "requested (snd (free_steppers m s)) =
     (\<lambda>g. if stepper_gpio_base \<le> g \<and> g \<le> stepper_gpio_base + m then None else requested s g)"
  by (induction m s rule: free_steppers.induct)
     (subst free_steppers.simps, auto simp: gpio_free_def fun_eq_iff)

lemma request_steppers_result:
  assumes "request_steppers env i s = (r, j, s')" and "i \<le> 4"
  shows "i \<le> j \<and> j \<le> 4
    \<and> (\<forall>k. i \<le> k \<and> k < j \<longrightarrow> avail env s (stepper_gpio_base + k))
    \<and> requested s' = (\<lambda>g. if stepper_gpio_base + i \<le> g \<and> g < stepper_gpio_base + j
                             then Some ''Stepper GPIO'' else requested s g)
    \<and> (r = None \<longleftrightarrow> j = 4)
    \<and> (r \<noteq> None \<longrightarrow> \<not> avail env s (stepper_gpio_base + j))
    \<and> cdevs s' = cdevs s \<and> devices s' = devices s \<and> region s' = region s
    \<and> gpio_class s' = gpio_class s"
  using assms
proof (induction env i s arbitrary: r j s' rule: request_steppers.induct)
  case (1 env i s)
  show ?case
  proof (cases "i < 4")
    case False
    with "1.prems" show ?thesis
      by (subst (asm) request_steppers.simps) (auto simp: fun_eq_iff)
  next
    case lt: True
    show ?thesis
    proof (cases "avail env s (stepper_gpio_base + i)")
      case False
      with "1.prems" lt show ?thesis
        by (subst (asm) request_steppers.simps)
           (auto simp: gpio_request_one_cases pr_err_def fun_eq_iff)
    next
      case av: True
      let ?s1 = "gpio_set_value (stepper_gpio_base + i) 0
                   (s\<lparr>requested := (requested s)(stepper_gpio_base + i \<mapsto> ''Stepper GPIO'')\<rparr>)"
      have g: "gpio_request_one env (stepper_gpio_base + i) ''Stepper GPIO'' s = (None, ?s1)"
        using av by (simp add: gpio_request_one_cases)
      have rec: "request_steppers env (i + 1) ?s1 = (r, j, s')"
        using "1.prems" lt g by (subst (asm) request_steppers.simps) simp
      have le: "i + 1 \<le> 4" using lt by simp
      have ih: "i + 1 \<le> j \<and> j \<le> 4
        \<and> (\<forall>k. i + 1 \<le> k \<and> k < j \<longrightarrow> avail env ?s1 (stepper_gpio_base + k))
        \<and> requested s' = (\<lambda>g. if stepper_gpio_base + (i + 1) \<le> g \<and> g < stepper_gpio_base + j
                             then Some ''Stepper GPIO'' else requested ?s1 g)
        \<and> (r = None \<longleftrightarrow> j = 4)
        \<and> (r \<noteq> None \<longrightarrow> \<not> avail env ?s1 (stepper_gpio_base + j))
        \<and> cdevs s' = cdevs ?s1 \<and> devices s' = devices ?s1 \<and> region s' = region ?s1
        \<and> gpio_class s' = gpio_class ?s1"
        by (rule "1.IH" [OF lt g [symmetric] refl rec le])
      have other: "\<And>k. i + 1 \<le> k \<Longrightarrow> avail env ?s1 (stepper_gpio_base + k) = avail env s (stepper_gpio_base + k)"
        by (simp add: avail_def gpio_set_value_def)
      have c3: "\<forall>k. i \<le> k \<and> k < j \<longrightarrow> avail env s (stepper_gpio_base + k)"
      proof (intro allI impI)
        fix k assume k: "i \<le> k \<and> k < j"
        show "avail env s (stepper_gpio_base + k)"
        proof (cases "k = i")
          case True
          with av show ?thesis by simp
        next
          case False
          with k have "i + 1 \<le> k" by simp
          with ih k other [of k] show ?thesis by simp
        qed
      qed
      have c4: "requested s' = (\<lambda>g. if stepper_gpio_base + i \<le> g \<and> g < stepper_gpio_base + j
                             then Some ''Stepper GPIO'' else requested s g)"
        using ih by (auto simp: fun_eq_iff gpio_set_value_def)
      have c6: "r \<noteq> None \<longrightarrow> \<not> avail env s (stepper_gpio_base + j)"
        using ih other [of j] by auto
      have c7: "cdevs s' = cdevs s \<and> devices s' = devices s \<and> region s' = region s
          \<and> gpio_class s' = gpio_class s"
        using ih by (simp add: gpio_set_value_def)
      from ih c3 c4 c6 c7 show ?thesis by simp
    qed
  qed
qed


lemma cleanup_gpio_result:
  assumes "0 \<le> j"
  shows "cleanup_gpio j e s =
     (Some e, (gpio_free servo_gpio (snd (free_steppers (j - 1) s)))\<lparr>gpio_class := False, region := False\<rparr>)"
proof -
  obtain i' s1 where f: "free_steppers (j - 1) s = (i', s1)" by (cases "free_steppers (j - 1) s")
  have "i' = - 1"
    using free_steppers_index [of "j - 1" s] f assms by (simp split: if_splits)
  then show ?thesis
    by (simp add: cleanup_gpio_def cleanup_cdev_def f destroy_devices_none)
qed

lemma cleanup_cdev_fields [simp]:
  "fst (cleanup_cdev i e s) = Some e"
  "requested (snd (cleanup_cdev i e s)) = requested s"
  "region (snd (cleanup_cdev i e s)) = False"
  "gpio_class (snd (cleanup_cdev i e s)) = False"
  by (simp_all add: cleanup_cdev_def split: prod.splits)
     (metis destroy_devices_fields(1) snd_conv)

lemma create_devices_ok:
  assumes "\<forall>k. 0 \<le> k \<and> k < 5 \<longrightarrow> cdev_add_err env k = None" and "0 \<le> i" and "i \<le> 5"
  shows "fst (create_devices env i s) = None \<and> fst (snd (create_devices env i s)) = 5
    \<and> cdevs (snd (snd (create_devices env i s))) = cdevs s \<union> {i..4}
    \<and> devices (snd (snd (create_devices env i s))) = devices s \<union> {i..4}"
  using assms
proof (induction env i s rule: create_devices.induct)
  case (1 env i s)
  show ?case
  proof (cases "i < 5")
    case False
    with "1.prems" show ?thesis
      by (subst (1 2 3 4) create_devices.simps) (simp add: MAX_DEVICES_def)
  next
    case True
    then have c: "cdev_add_err env i = None" using "1.prems" by simp
    have "{i..4} = insert i {i + 1..4}" using True by auto
    with "1.IH" [OF _ c] "1.prems" True c show ?thesis
      by (subst (1 2 3 4) create_devices.simps) (simp add: MAX_DEVICES_def pr_info_def)
  qed
qed


lemma probe_start_fields [simp]:
  "requested (probe_start s) = requested s" "cdevs (probe_start s) = cdevs s"
  "devices (probe_start s) = devices s"
  by (simp_all add: probe_start_def pr_info_def)

text \<open>
  The stepper loop entered after the servo line was acquired in state \<open>s1\<close>: what a failure
  releases, and what a success has acquired.
\<close>

lemma probe_lines:
  assumes st: "request_steppers env 0 s2 = (r, j, s3)"
    and s2: "s2 = gpio_set_value servo_gpio 0 (s1\<lparr>requested := (requested s1)(servo_gpio \<mapsto> ''Servo GPIO'')\<rparr>)"
    and av: "avail env s1 servo_gpio"
  shows "r \<noteq> None \<Longrightarrow> requested (gpio_free servo_gpio (snd (free_steppers (j - 1) s3))) = requested s1"
    and "r \<noteq> None \<Longrightarrow> 0 \<le> j \<and> j < 4 \<and> \<not> avail env s1 (stepper_gpio_base + j)"
    and "r = None \<Longrightarrow> (\<forall>k. 0 \<le> k \<and> k < 4 \<longrightarrow> avail env s1 (stepper_gpio_base + k))"
    and "cdevs s3 = cdevs s1" and "devices s3 = devices s1"
proof -
  have res: "0 \<le> j \<and> j \<le> 4
    \<and> (\<forall>k. 0 \<le> k \<and> k < j \<longrightarrow> avail env s2 (stepper_gpio_base + k))
    \<and> requested s3 = (\<lambda>g. if stepper_gpio_base + 0 \<le> g \<and> g < stepper_gpio_base + j
                             then Some ''Stepper GPIO'' else requested s2 g)
    \<and> (r = None \<longleftrightarrow> j = 4)
    \<and> (r \<noteq> None \<longrightarrow> \<not> avail env s2 (stepper_gpio_base + j))
    \<and> cdevs s3 = cdevs s2 \<and> devices s3 = devices s2 \<and> region s3 = region s2
    \<and> gpio_class s3 = gpio_class s2"
    by (rule request_steppers_result [OF st]) simp
  then have j: "0 \<le> j" "j \<le> 4" "r = None \<longleftrightarrow> j = 4"
    and avs: "\<And>k. 0 \<le> k \<Longrightarrow> k < j \<Longrightarrow> avail env s2 (stepper_gpio_base + k)"
    and req3: "requested s3 = (\<lambda>g. if stepper_gpio_base \<le> g \<and> g < stepper_gpio_base + j
                             then Some ''Stepper GPIO'' else requested s2 g)"
    and nav: "r \<noteq> None \<Longrightarrow> \<not> avail env s2 (stepper_gpio_base + j)"
    and dv: "cdevs s3 = cdevs s2" "devices s3 = devices s2"
    by simp_all
  have ne: "\<And>k. 0 \<le> k \<Longrightarrow> stepper_gpio_base + k \<noteq> servo_gpio"
    by (simp add: stepper_gpio_base_def servo_gpio_def STEPPER_GPIO_BASE_def SERVO_GPIO_def)
  have same: "\<And>k. 0 \<le> k \<Longrightarrow> avail env s2 (stepper_gpio_base + k) = avail env s1 (stepper_gpio_base + k)"
    using ne by (simp add: s2 avail_def gpio_set_value_def)
  show "cdevs s3 = cdevs s1" "devices s3 = devices s1"
    using dv by (simp_all add: s2 gpio_set_value_def)
  show "r = None \<Longrightarrow> (\<forall>k. 0 \<le> k \<and> k < 4 \<longrightarrow> avail env s1 (stepper_gpio_base + k))"
    using j avs same by simp
  show "r \<noteq> None \<Longrightarrow> 0 \<le> j \<and> j < 4 \<and> \<not> avail env s1 (stepper_gpio_base + j)"
    using j nav same [of j] by simp
  show "r \<noteq> None \<Longrightarrow> requested (gpio_free servo_gpio (snd (free_steppers (j - 1) s3))) = requested s1"
  proof -
    assume "r \<noteq> None"
    have free: "requested s1 g = None" if g: "stepper_gpio_base \<le> g" "g < stepper_gpio_base + j" for g
    proof -
      have "avail env s2 (stepper_gpio_base + (g - stepper_gpio_base))"
        using g by (intro avs) simp_all
      with g same [of "g - stepper_gpio_base"] show ?thesis
        by (simp add: avail_def)
    qed
    have sv: "requested s1 servo_gpio = None" using av by (simp add: avail_def)
    show ?thesis
    proof (rule ext)
      fix g
      show "requested (gpio_free servo_gpio (snd (free_steppers (j - 1) s3))) g = requested s1 g"
        using free [of g] sv
        by (simp add: gpio_free_def free_steppers_requested req3 s2 gpio_set_value_def)
    qed
  qed
qed


lemma probe_unfold:
  assumes "alloc_chrdev_region_err env = None" and "class_create_err env = None"
    and "create_devices env 0 (probe_start s) = (r1, i, s1)"
  shows "plat_drv_probe env s =
    (case r1 of
       Some e \<Rightarrow> cleanup_cdev i e s1
     | None \<Rightarrow>
        if \<not> avail env s1 servo_gpio then
          cleanup_cdev i (case gpio_request_err env servo_gpio of Some e \<Rightarrow> e | None \<Rightarrow> EBUSY)
            (pr_err (''Failed to request Servo GPIO '' @ dec servo_gpio @ nl) s1)
        else
          (case request_steppers env 0
                  (gpio_set_value servo_gpio 0
                     (s1\<lparr>requested := (requested s1)(servo_gpio \<mapsto> ''Servo GPIO'')\<rparr>)) of
             (Some e, j, s3) \<Rightarrow> cleanup_gpio j e s3
           | (None, j, s3) \<Rightarrow> (None, pr_info (''GPIO Driver successfully probed'' @ nl) s3)))"
  using assms
  by (simp add: plat_drv_probe_def probe_start_def gpio_request_one_cases split: option.splits)

lemma probe_outcome:
  "(fst (plat_drv_probe env s) \<noteq> None \<and> requested (snd (plat_drv_probe env s)) = requested s)
   \<or> (fst (plat_drv_probe env s) = None \<and> avail env s servo_gpio
       \<and> (\<forall>k. 0 \<le> k \<and> k < 4 \<longrightarrow> avail env s (stepper_gpio_base + k)))"
proof (cases "alloc_chrdev_region_err env")
  case (Some e)
  then show ?thesis by (simp add: plat_drv_probe_def pr_err_def pr_info_def)
next
  case a: None
  show ?thesis
  proof (cases "class_create_err env")
    case (Some e)
    with a show ?thesis by (simp add: plat_drv_probe_def pr_err_def pr_info_def)
  next
    case c: None
    obtain r1 i s1 where cd: "create_devices env 0 (probe_start s) = (r1, i, s1)"
      by (cases "create_devices env 0 (probe_start s)")
    have r1: "requested s1 = requested s"
      using create_devices_fields(1) [of env 0 "probe_start s"] cd by simp
    then have av1: "\<And>g. avail env s1 g = avail env s g" by (simp add: avail_def)
    note pu = probe_unfold [OF a c cd]
    show ?thesis
    proof (cases r1)
      case (Some e)
      with pu r1 show ?thesis by simp
    next
      case n1: None
      show ?thesis
      proof (cases "avail env s1 servo_gpio")
        case False
        with pu n1 r1 show ?thesis by (simp add: pr_err_def)
      next
        case av: True
        let ?s2 = "gpio_set_value servo_gpio 0
                     (s1\<lparr>requested := (requested s1)(servo_gpio \<mapsto> ''Servo GPIO'')\<rparr>)"
        obtain r3 j s3 where rs: "request_steppers env 0 ?s2 = (r3, j, s3)"
          by (cases "request_steppers env 0 ?s2")
        note pl = probe_lines [OF rs refl av]
        show ?thesis
        proof (cases r3)
          case None
          with pu n1 av rs pl(3) av1 show ?thesis by simp
        next
          case (Some e)
          then have "0 \<le> j" using pl(2) by simp
          with Some pu n1 av rs pl(1) r1 show ?thesis
            by (simp add: cleanup_gpio_result)
        qed
      qed
    qed
  qed
qed

lemma line_24_taken_avail:
  "avail env_ok line_24_taken servo_gpio" "\<not> avail env_ok line_24_taken (stepper_gpio_base + 2)"
  by (simp_all add: avail_def env_ok_def line_24_taken_def power_on_def servo_gpio_def
      SERVO_GPIO_def stepper_gpio_base_def STEPPER_GPIO_BASE_def)

text \<open>
  C1. Whenever \<^verbatim>\<open>plat_drv_probe\<close> returns an error, the kernel's table of requested GPIO
  lines is exactly what it was before the call: every line acquired during the call has
  been released and the driver holds none. And it does return an error whenever one of
  the five lines (the servo line 18, the stepper lines 22..25) cannot be requested.
\<close>

theorem probe_all_or_nothing:
  "(fst (plat_drv_probe env s) \<noteq> None \<longrightarrow>
      requested (snd (plat_drv_probe env s)) = requested s)
   \<and> (\<not> avail env s servo_gpio \<or> (\<exists>k. 0 \<le> k \<and> k < 4 \<and> \<not> avail env s (stepper_gpio_base + k)) \<longrightarrow>
      fst (plat_drv_probe env s) \<noteq> None)"
proof (intro conjI impI)
  assume "fst (plat_drv_probe env s) \<noteq> None"
  with probe_outcome [of env s] show "requested (snd (plat_drv_probe env s)) = requested s"
    by (elim disjE conjE) simp_all
next
  assume n: "\<not> avail env s servo_gpio
    \<or> (\<exists>k. 0 \<le> k \<and> k < 4 \<and> \<not> avail env s (stepper_gpio_base + k))"
  show "fst (plat_drv_probe env s) \<noteq> None"
  proof
    assume "fst (plat_drv_probe env s) = None"
    with probe_outcome [of env s]
    have "avail env s servo_gpio \<and> (\<forall>k. 0 \<le> k \<and> k < 4 \<longrightarrow> avail env s (stepper_gpio_base + k))"
      by (elim disjE conjE) simp_all
    with n show False by (elim disjE exE conjE) simp_all
  qed
qed

theorem probe_all_or_nothing_witness:
  "fst (plat_drv_probe env_ok line_24_taken) = Some EBUSY
   \<and> requested (snd (plat_drv_probe env_ok line_24_taken)) = [24 \<mapsto> ''other driver'']"
proof -
  have "\<exists>k. 0 \<le> k \<and> k < 4 \<and> \<not> avail env_ok line_24_taken (stepper_gpio_base + k)"
    using line_24_taken_avail(2) by (intro exI [of _ 2]) simp
  moreover have "fst (plat_drv_probe env_ok line_24_taken) = Some EBUSY"
    by code_simp
  ultimately show ?thesis
    using probe_all_or_nothing [of env_ok line_24_taken]
    by (simp add: line_24_taken_def)
qed

text \<open>
  C10. When the region, the class and the five device files are created, the servo line
  is acquired and the request of a stepper line fails, \<^verbatim>\<open>plat_drv_probe\<close> returns the error
  with the GPIO table as before the call and with the class and the region torn down,
  but the five character devices and device nodes 0..4 are all still there: the GPIO
  release loop leaves \<open>i = -1\<close>, so the loop at \<^verbatim>\<open>cleanup_cdev\<close> starts below 0 and destroys
  nothing.
\<close>

theorem stepper_failure_leaks_endpoints:
  assumes a: "alloc_chrdev_region_err env = None" and c: "class_create_err env = None"
    and d: "\<forall>k. 0 \<le> k \<and> k < 5 \<longrightarrow> cdev_add_err env k = None"
    and av: "avail env s servo_gpio"
    and k: "0 \<le> k" "k < 4" "\<not> avail env s (stepper_gpio_base + k)"
  shows "fst (plat_drv_probe env s) \<noteq> None
    \<and> requested (snd (plat_drv_probe env s)) = requested s
    \<and> cdevs (snd (plat_drv_probe env s)) = cdevs s \<union> {0, 1, 2, 3, 4}
    \<and> devices (snd (plat_drv_probe env s)) = devices s \<union> {0, 1, 2, 3, 4}
    \<and> \<not> gpio_class (snd (plat_drv_probe env s))
    \<and> \<not> region (snd (plat_drv_probe env s))
    \<and> (\<forall>j s'. 0 \<le> j \<longrightarrow> fst (free_steppers (j - 1) s') = - 1
          \<and> destroy_devices (- 1 - 1) s' = (- 2, s'))"
proof -
  obtain r1 i s1 where cd: "create_devices env 0 (probe_start s) = (r1, i, s1)"
    by (cases "create_devices env 0 (probe_start s)")
  have ok: "r1 = None \<and> i = 5 \<and> cdevs s1 = cdevs s \<union> {0..4} \<and> devices s1 = devices s \<union> {0..4}"
    using create_devices_ok [OF d, of 0 "probe_start s"] cd by simp
  have r1: "requested s1 = requested s"
    using create_devices_fields(1) [of env 0 "probe_start s"] cd by simp
  then have av1: "\<And>g. avail env s1 g = avail env s g" by (simp add: avail_def)
  let ?s2 = "gpio_set_value servo_gpio 0
               (s1\<lparr>requested := (requested s1)(servo_gpio \<mapsto> ''Servo GPIO'')\<rparr>)"
  obtain r3 j s3 where rs: "request_steppers env 0 ?s2 = (r3, j, s3)"
    by (cases "request_steppers env 0 ?s2")
  have av': "avail env s1 servo_gpio" using av av1 by simp
  note pl = probe_lines [OF rs refl av']
  have "r3 \<noteq> None" using pl(3) k av1 by auto
  then obtain e where e: "r3 = Some e" by auto
  have j: "0 \<le> j" using pl(2) e by simp
  have set: "{0..4::int} = {0, 1, 2, 3, 4}" by auto
  have "plat_drv_probe env s = cleanup_gpio j e s3"
    using probe_unfold [OF a c cd] ok av' rs e by simp
  then have p: "plat_drv_probe env s =
      (Some e, (gpio_free servo_gpio (snd (free_steppers (j - 1) s3)))\<lparr>gpio_class := False, region := False\<rparr>)"
    using j by (simp add: cleanup_gpio_result)
  have "cdevs (snd (plat_drv_probe env s)) = cdevs s \<union> {0, 1, 2, 3, 4}"
    unfolding p using pl(4) ok by (simp only: set [symmetric]) (simp add: gpio_free_def)
  moreover have "devices (snd (plat_drv_probe env s)) = devices s \<union> {0, 1, 2, 3, 4}"
    unfolding p using pl(5) ok by (simp only: set [symmetric]) (simp add: gpio_free_def)
  moreover have "requested (snd (plat_drv_probe env s)) = requested s"
    unfolding p using pl(1) e r1 by simp
  moreover have "\<forall>j s'. 0 \<le> j \<longrightarrow> fst (free_steppers (j - 1) s') = - 1
          \<and> destroy_devices (- 1 - 1) s' = (- 2, s')"
    by (simp add: free_steppers_index destroy_devices_none)
  ultimately show ?thesis
    unfolding p by simp
qed

theorem stepper_failure_leaks_endpoints_witness:
  "fst (plat_drv_probe env_ok line_24_taken) \<noteq> None
   \<and> requested (snd (plat_drv_probe env_ok line_24_taken)) = [24 \<mapsto> ''other driver'']
   \<and> cdevs (snd (plat_drv_probe env_ok line_24_taken)) = {0, 1, 2, 3, 4}
   \<and> devices (snd (plat_drv_probe env_ok line_24_taken)) = {0, 1, 2, 3, 4}
   \<and> \<not> gpio_class (snd (plat_drv_probe env_ok line_24_taken))
   \<and> \<not> region (snd (plat_drv_probe env_ok line_24_taken))"
  using stepper_failure_leaks_endpoints [of env_ok line_24_taken 2] line_24_taken_avail
  by (simp add: env_ok_def) (simp add: line_24_taken_def power_on_def)

subsection \<open>The read handler\<close>

lemma length_dec_nat: "0 < k \<Longrightarrow> n < 10 ^ k \<Longrightarrow> length (dec_nat n) \<le> k"
proof (induction n arbitrary: k rule: dec_nat.induct)
  case (1 n)
  show ?case
  proof (cases "n < 10")
    case True
    with "1.prems" show ?thesis by (subst dec_nat.simps) simp
  next
    case False
    then obtain k' where k: "k = Suc k'" "0 < k'"
      using "1.prems" by (cases k; cases "k - 1") auto
    have "n div 10 < 10 ^ k'" using "1.prems" k by (simp add: less_mult_imp_div_less mult.commute)
    from "1.IH" [OF False k(2) this] False k show ?thesis
      by (subst dec_nat.simps) simp
  qed
qed

lemma length_dec: "int32 v \<Longrightarrow> length (dec v) \<le> 11"
proof -
  assume v: "int32 v"
  then have "nat v < 10 ^ 10" "nat (- v) < 10 ^ 10"
    unfolding int32_def by (simp; linarith)+
  then have "length (dec_nat (nat v)) \<le> 10" "length (dec_nat (nat (- v))) \<le> 10"
    by (simp_all add: length_dec_nat del: power_numeral)
  then show ?thesis by (simp add: dec_def)
qed

lemma length_read_text:
  assumes "0 \<le> minor" "minor \<le> 4" "int32 (servo_angle s)" "int32 (gpio_value s (stepper_gpio_base + (minor - 1)))"
  shows "length (read_text minor s) \<le> 63"
  using assms length_dec [of "servo_angle s"] length_dec [of "gpio_value s (stepper_gpio_base + (minor - 1))"]
    length_dec [of minor]
  by (auto simp: read_text_def nl_def int32_def)

lemma gpio_read_text:
  assumes "0 \<le> minor" "minor \<le> 4" "f_pos \<le> 0"
  shows "gpio_read minor writable count f_pos s =
    (let text = read_text minor s; len = min count (length text) in
     if len \<le> writable then (Inr (take len (snprintf 64 text)), f_pos + int len, s)
     else (Inl EFAULT, f_pos, s))"
  using assms
  by (auto simp: gpio_read_def read_text_def Let_def copy_to_user_def gpio_get_value_def min_def)


lemma gpio_read_state: "snd (snd (gpio_read minor writable count f_pos s)) = s"
  by (simp add: gpio_read_def Let_def split: option.splits)

lemma gpio_read_eof: "0 < f_pos \<Longrightarrow> gpio_read minor writable count f_pos s = (Inr [], f_pos, s)"
  by (simp add: gpio_read_def)

text \<open>
  C9 (as amended). A read on a minor in 0..4 never changes the driver state. At a file
  position that is not positive, with room in the user buffer, it returns the first
  \<open>min count L\<close> bytes of the text of the endpoint (\<open>L\<close> its length) and moves the file
  position forward by that number: the whole text
  \<^verbatim>\<open>Servo angle: <n> degrees\<close> or \<^verbatim>\<open>Stepper pin <id>: <level>\<close> (with a final newline) when
  \<open>count\<close> is at least \<open>L\<close>. At a positive file position it returns no bytes (end of
  file).
\<close>

theorem read_renders_state:
  assumes "0 \<le> minor" and "minor \<le> 4" and "int32 (servo_angle s)"
    and "int32 (gpio_value s (stepper_gpio_base + (minor - 1)))"
  shows "snd (snd (gpio_read minor writable count f_pos s)) = s
    \<and> (0 < f_pos \<longrightarrow> gpio_read minor writable count f_pos s = (Inr [], f_pos, s))
    \<and> (f_pos \<le> 0 \<and> min count (length (read_text minor s)) \<le> writable \<longrightarrow>
          gpio_read minor writable count f_pos s
            = (Inr (take count (read_text minor s)),
               f_pos + int (min count (length (read_text minor s))), s))
    \<and> (f_pos \<le> 0 \<and> length (read_text minor s) \<le> count
          \<and> length (read_text minor s) \<le> writable \<longrightarrow>
          fst (gpio_read minor writable count f_pos s) = Inr (read_text minor s))"
proof -
  have len: "length (read_text minor s) \<le> 63"
    using assms by (rule length_read_text)
  then have cut: "snprintf 64 (read_text minor s) = read_text minor s"
    by (simp add: snprintf_def)
  have rd: "f_pos \<le> 0 \<Longrightarrow> min count (length (read_text minor s)) \<le> writable \<Longrightarrow>
      gpio_read minor writable count f_pos s
        = (Inr (take count (read_text minor s)),
           f_pos + int (min count (length (read_text minor s))), s)"
    using assms(1,2) by (simp add: gpio_read_text cut Let_def min_def)
  have full: "f_pos \<le> 0 \<Longrightarrow> length (read_text minor s) \<le> count \<Longrightarrow>
      length (read_text minor s) \<le> writable \<Longrightarrow>
      fst (gpio_read minor writable count f_pos s) = Inr (read_text minor s)"
    using rd by (simp add: min_def)
  show ?thesis
    using rd full by (simp add: gpio_read_state gpio_read_eof)
qed

theorem read_renders_state_witness:
  "gpio_read 0 64 64 0 power_on = (Inr (''Servo angle: 0 degrees'' @ nl), 23, power_on)
   \<and> gpio_read 3 64 64 0 power_on = (Inr (''Stepper pin 3: 0'' @ nl), 17, power_on)
   \<and> gpio_read 3 64 64 17 power_on = (Inr [], 17, power_on)"
proof -
  have d3: "dec 3 = ''3''" by code_simp
  have t: "read_text 0 power_on = ''Servo angle: 0 degrees'' @ nl"
    "read_text 3 power_on = ''Stepper pin 3: 0'' @ nl"
    by (simp_all add: read_text_def power_on_def dec_0 d3)
  have i: "int32 (servo_angle power_on)" "\<And>g. int32 (gpio_value power_on g)"
    by (simp_all add: int32_def power_on_def)
  show ?thesis
    using read_renders_state [of 0 power_on 64 64 0, OF _ _ i]
      read_renders_state [of 3 power_on 64 64 0, OF _ _ i]
      read_renders_state [of 3 power_on 64 64 17, OF _ _ i]
    by (simp add: t nl_def)
qed

text \<open>
  The claim as stated, for every read call, fails: a read of 5 bytes returns only
  \<^verbatim>\<open>Servo\<close>, and a read at file position 23 (where a first full read leaves it) returns
  nothing.
\<close>

theorem read_short_or_repeated_counterexample:
  "fst (gpio_read 0 64 5 0 power_on) = Inr ''Servo''
   \<and> fst (gpio_read 0 64 64 23 power_on) = Inr []
   \<and> fst (gpio_read 0 64 5 0 power_on)
       \<noteq> Inr (''Servo angle: '' @ dec (servo_angle power_on) @ '' degrees'' @ nl)
   \<and> fst (gpio_read 0 64 64 23 power_on)
       \<noteq> Inr (''Servo angle: '' @ dec (servo_angle power_on) @ '' degrees'' @ nl)"
  by (simp add: gpio_read_def power_on_def dec_0 snprintf_def copy_to_user_def nl_def Let_def)

subsection \<open>The line parser\<close>

lemma first_token_Nil:
  "take 31 (takeWhile (\<lambda>c. \<not> isspace c) (dropWhile isspace cs)) = [] \<longleftrightarrow> (\<forall>c\<in>set cs. isspace c)"
proof -
  have "takeWhile (\<lambda>c. \<not> isspace c) (dropWhile isspace cs) = [] \<longleftrightarrow> dropWhile isspace cs = []"
    using hd_dropWhile [of isspace cs] by (auto simp: takeWhile_eq_Nil_iff)
  then show ?thesis by (simp add: dropWhile_eq_Nil_conv)
qed

lemma parse_None_iff:
  "parseSunDirection line = None \<longleftrightarrow>
     \<not> (take 8 (c_str line) = ''SUN_DIR:'' \<and> (\<exists>c\<in>set (drop 8 (c_str line)). \<not> isspace c))"
proof -
  define l where "l = c_str line"
  define P where "P \<longleftrightarrow> take 8 l = ''SUN_DIR:''"
  have "parseSunDirection line =
      (if P then (if (\<forall>c\<in>set (drop 8 l). isspace c) then None
                  else Some (take 31 (takeWhile (\<lambda>c. \<not> isspace c) (dropWhile isspace (drop 8 l)))))
       else None)"
    unfolding parseSunDirection_def Let_def first_token_Nil l_def P_def by (rule refl)
  then show ?thesis
    unfolding l_def [symmetric] P_def [symmetric] by (cases P) simp_all
qed

lemma nonempty_Some: "(if xs = [] then None else Some xs) = Some t \<Longrightarrow> t = xs \<and> t \<noteq> []"
  by (cases "xs = []") auto

lemma parse_Some_shape:
  assumes "parseSunDirection line = Some tok"
  shows "tok \<noteq> [] \<and> length tok \<le> 31 \<and> (\<forall>c\<in>set tok. \<not> isspace c)
     \<and> (\<exists>ws rest. c_str line = ''SUN_DIR:'' @ ws @ tok @ rest \<and> (\<forall>c\<in>set ws. isspace c)
          \<and> (length tok < 31 \<longrightarrow> rest = [] \<or> isspace (hd rest)))"
proof -
  let ?l = "c_str line"
  let ?d = "dropWhile isspace (drop 8 ?l)"
  let ?tw = "takeWhile (\<lambda>c. \<not> isspace c) ?d"
  have p: "take 8 ?l = ''SUN_DIR:''"
  proof (rule ccontr)
    assume "take 8 ?l \<noteq> ''SUN_DIR:''"
    then have "parseSunDirection line = None"
      unfolding parseSunDirection_def Let_def by (rule if_not_P)
    with assms show False by simp
  qed
  have "parseSunDirection line = (if take 31 ?tw = [] then None else Some (take 31 ?tw))"
    unfolding parseSunDirection_def Let_def by (subst if_P [OF p]) (rule refl)
  with assms have "(if take 31 ?tw = [] then None else Some (take 31 ?tw)) = Some tok"
    by (simp only:)
  then have t: "tok = take 31 ?tw \<and> tok \<noteq> []"
    by (rule nonempty_Some)
  then have ne: "tok \<noteq> []" by (rule conjunct2)
  note t = t [THEN conjunct1]
  have "set tok \<subseteq> set ?tw" unfolding t by (rule set_take_subset)
  then have q: "\<forall>c\<in>set tok. \<not> isspace c" by (auto dest: set_takeWhileD)
  define rest where "rest = drop 8 ?l"
  define ws where "ws = takeWhile isspace rest"
  define d where "d = dropWhile isspace rest"
  define tw where "tw = takeWhile (\<lambda>c. \<not> isspace c) d"
  define dd where "dd = dropWhile (\<lambda>c. \<not> isspace c) d"
  define tt where "tt = drop 31 tw"
  have "?l = ''SUN_DIR:'' @ rest"
    using append_take_drop_id [of 8 ?l] unfolding p rest_def by (rule sym)
  also have "rest = ws @ d"
    unfolding ws_def d_def by (rule takeWhile_dropWhile_id [symmetric])
  also have "d = tw @ dd"
    unfolding tw_def dd_def by (rule takeWhile_dropWhile_id [symmetric])
  also have "tw = tok @ tt"
    unfolding t tt_def tw_def d_def rest_def by (rule append_take_drop_id [symmetric])
  finally have "?l = ''SUN_DIR:'' @ ws @ tok @ (tt @ dd)"
    by (simp only: append_assoc)
  moreover have "\<forall>c\<in>set ws. isspace c"
    unfolding ws_def by (auto dest: set_takeWhileD)
  moreover have "length tok < 31 \<longrightarrow> tt @ dd = [] \<or> isspace (hd (tt @ dd))"
  proof
    assume "length tok < 31"
    then have "length tw < 31"
      unfolding t tw_def d_def rest_def by (simp add: min_def split: if_splits)
    then have "tt = []" unfolding tt_def by simp
    moreover have "dd \<noteq> [] \<Longrightarrow> isspace (hd dd)"
      using hd_dropWhile [of "\<lambda>c. \<not> isspace c" d] unfolding dd_def by simp
    ultimately show "tt @ dd = [] \<or> isspace (hd (tt @ dd))" by auto
  qed
  ultimately have e: "\<exists>ws rest. ?l = ''SUN_DIR:'' @ ws @ tok @ rest \<and> (\<forall>c\<in>set ws. isspace c)
      \<and> (length tok < 31 \<longrightarrow> rest = [] \<or> isspace (hd rest))"
    by blast
  have "length tok \<le> 31" unfolding t by (rule length_take [THEN ord_eq_le_trans]) simp
  with ne q e show ?thesis by (intro conjI)
qed

lemma parse_plain_token:
  assumes "tok \<noteq> []" and "length tok \<le> 31" and "\<forall>c\<in>set tok. \<not> isspace c \<and> c \<noteq> CHR 0x00"
    and "\<forall>c\<in>set rest. c \<noteq> CHR 0x00" and "rest = [] \<or> isspace (hd rest)"
  shows "parseSunDirection (''SUN_DIR:'' @ tok @ rest) = Some tok"
proof -
  have c: "c_str (''SUN_DIR:'' @ tok @ rest) = ''SUN_DIR:'' @ tok @ rest"
    using assms(3,4) by (auto simp: c_str_def takeWhile_eq_all_conv)
  have d: "dropWhile isspace (tok @ rest) = tok @ rest"
    using assms(1,3) by (cases tok) auto
  have tw: "takeWhile (\<lambda>c. \<not> isspace c) (tok @ rest) = tok"
    using assms(3,5) by (cases rest) (auto simp: takeWhile_append2 takeWhile_eq_all_conv)
  have "parseSunDirection (''SUN_DIR:'' @ tok @ rest) =
      (let direction = take 31 (takeWhile (\<lambda>c. \<not> isspace c) (dropWhile isspace (tok @ rest)))
       in if direction = [] then None else Some direction)"
    unfolding parseSunDirection_def c by (simp add: Let_def)
  then show ?thesis
    using assms(1,2) by (simp add: d tw)
qed


text \<open>
  C7 (as amended). \<^verbatim>\<open>parseSunDirection\<close> yields a token exactly for the lines that start with
  \<^verbatim>\<open>SUN_DIR:\<close> and have a character that is not white space after it. White space between
  the prefix and the token is skipped; the token is the first run of characters that are
  not white space, cut after 31 of them; what follows the token is ignored. So the token
  is never empty and never longer than 31 characters (the 32-byte buffer is not
  overrun), and the prefix followed by 1 to 31 such characters, with or without a final
  newline, yields exactly those characters. Every other line yields no command.
\<close>

theorem parse_shape:
  "(parseSunDirection line = None \<longleftrightarrow>
      \<not> (take 8 (c_str line) = ''SUN_DIR:'' \<and> (\<exists>c\<in>set (drop 8 (c_str line)). \<not> isspace c)))
   \<and> (\<forall>tok. parseSunDirection line = Some tok \<longrightarrow>
         tok \<noteq> [] \<and> length tok \<le> 31 \<and> (\<forall>c\<in>set tok. \<not> isspace c)
         \<and> (\<exists>ws rest. c_str line = ''SUN_DIR:'' @ ws @ tok @ rest \<and> (\<forall>c\<in>set ws. isspace c)
              \<and> (length tok < 31 \<longrightarrow> rest = [] \<or> isspace (hd rest))))
   \<and> (\<forall>tok. tok \<noteq> [] \<and> length tok \<le> 31 \<and> (\<forall>c\<in>set tok. \<not> isspace c \<and> c \<noteq> CHR 0x00) \<longrightarrow>
         parseSunDirection (''SUN_DIR:'' @ tok) = Some tok
         \<and> parseSunDirection (''SUN_DIR:'' @ tok @ nl) = Some tok)"
proof -
  have 1: "parseSunDirection line = None \<longleftrightarrow>
      \<not> (take 8 (c_str line) = ''SUN_DIR:'' \<and> (\<exists>c\<in>set (drop 8 (c_str line)). \<not> isspace c))"
    by (rule parse_None_iff)
  have 2: "\<forall>tok. parseSunDirection line = Some tok \<longrightarrow>
         tok \<noteq> [] \<and> length tok \<le> 31 \<and> (\<forall>c\<in>set tok. \<not> isspace c)
         \<and> (\<exists>ws rest. c_str line = ''SUN_DIR:'' @ ws @ tok @ rest \<and> (\<forall>c\<in>set ws. isspace c)
              \<and> (length tok < 31 \<longrightarrow> rest = [] \<or> isspace (hd rest)))"
    by (intro allI impI) (rule parse_Some_shape)
  have 3: "\<forall>tok. tok \<noteq> [] \<and> length tok \<le> 31 \<and> (\<forall>c\<in>set tok. \<not> isspace c \<and> c \<noteq> CHR 0x00) \<longrightarrow>
         parseSunDirection (''SUN_DIR:'' @ tok) = Some tok
         \<and> parseSunDirection (''SUN_DIR:'' @ tok @ nl) = Some tok"
  proof (intro allI impI)
    fix tok :: string
    assume "tok \<noteq> [] \<and> length tok \<le> 31 \<and> (\<forall>c\<in>set tok. \<not> isspace c \<and> c \<noteq> CHR 0x00)"
    then have a: "tok \<noteq> []" "length tok \<le> 31" "\<forall>c\<in>set tok. \<not> isspace c \<and> c \<noteq> CHR 0x00"
      by (rule conjunct1, rule conjunct2 [THEN conjunct1], rule conjunct2 [THEN conjunct2])
    have n: "\<forall>c\<in>set nl. c \<noteq> CHR 0x00" "nl = [] \<or> isspace (hd nl)"
      by (simp_all add: nl_def isspace_def)
    have e: "\<forall>c\<in>set ([]::string). c \<noteq> CHR 0x00" "([]::string) = [] \<or> isspace (hd [])"
      by simp_all
    have "parseSunDirection (''SUN_DIR:'' @ tok @ []) = Some tok"
      by (rule parse_plain_token [OF a e])
    then have "parseSunDirection (''SUN_DIR:'' @ tok) = Some tok"
      by (simp only: append_Nil2)
    moreover have "parseSunDirection (''SUN_DIR:'' @ tok @ nl) = Some tok"
      by (rule parse_plain_token [OF a n])
    ultimately show "parseSunDirection (''SUN_DIR:'' @ tok) = Some tok
         \<and> parseSunDirection (''SUN_DIR:'' @ tok @ nl) = Some tok"
      by (rule conjI)
  qed
  from 1 2 3 show ?thesis by (intro conjI)
qed


theorem parse_shape_witness:
  "parseSunDirection ''SUN_DIR:Op'' = Some ''Op''
   \<and> parseSunDirection (''SUN_DIR:Ned'' @ nl) = Some ''Ned''
   \<and> parseSunDirection ''garbage'' = None
   \<and> parseSunDirection (''SUN_DIR:'' @ replicate 40 (CHR ''x'') @ nl) = Some (replicate 31 (CHR ''x''))"
proof -
  have x: "parseSunDirection (''SUN_DIR:'' @ replicate 40 (CHR ''x'') @ nl) = Some (replicate 31 (CHR ''x''))"
    by code_simp
  have op: "''Op'' \<noteq> [] \<and> length ''Op'' \<le> 31 \<and> (\<forall>c\<in>set ''Op''. \<not> isspace c \<and> c \<noteq> CHR 0x00)"
    and ned: "''Ned'' \<noteq> [] \<and> length ''Ned'' \<le> 31 \<and> (\<forall>c\<in>set ''Ned''. \<not> isspace c \<and> c \<noteq> CHR 0x00)"
    by (simp_all add: isspace_def)
  have g: "take 8 (c_str ''garbage'') \<noteq> ''SUN_DIR:''"
    by (simp add: c_str_def)
  have 1: "parseSunDirection (''SUN_DIR:'' @ ''Op'') = Some ''Op''"
    using parse_shape [of "[]", THEN conjunct2, THEN conjunct2, THEN spec, of "''Op''"] op by blast
  have 2: "parseSunDirection (''SUN_DIR:'' @ ''Ned'' @ nl) = Some ''Ned''"
    using parse_shape [of "[]", THEN conjunct2, THEN conjunct2, THEN spec, of "''Ned''"] ned by blast
  have 3: "parseSunDirection ''garbage'' = None"
    using parse_shape [of "''garbage''", THEN conjunct1] g by blast
  from 1 2 3 x show ?thesis by simp
qed

text \<open>
  The claim as stated fails both ways: a line with white space between the prefix and
  the token is accepted, and the bare prefix (followed by zero characters, which is
  "up to 31") is not.
\<close>

theorem parse_shape_counterexample:
  "parseSunDirection ''SUN_DIR: Op'' = Some ''Op'' \<and> parseSunDirection ''SUN_DIR:'' = None"
  by code_simp

subsection \<open>The stepper sequence\<close>

lemma kstrtoint_0: "kstrtoint ''0'' = Some 0"
  by (simp add: kstrtoint_def kstrtoull_def isdigit_def digit_val_def)

lemma kstrtoint_1: "kstrtoint ''1'' = Some 1"
  by (simp add: kstrtoint_def kstrtoull_def isdigit_def digit_val_def)

lemma gpio_write_phase:
  assumes "1 \<le> m" "m \<le> 4" "v = 0 \<or> v = 1"
  shows "gpio_write m (snprintf 2 (dec v)) (length (snprintf 2 (dec v))) k
    = (Inr 1, gpio_set_value (stepper_gpio_base + (m - 1)) v k)"
  using assms
  by (auto simp: gpio_write_def snprintf_def dec_0 dec_1 copy_from_user_def c_str_def
      kstrtoint_0 kstrtoint_1)

lemma writeStepperPin_attached:
  assumes "dev_node s device = Some m" "1 \<le> m" "m \<le> 4" "v = 0 \<or> v = 1"
  shows "writeStepperPin device v s
    = (0, s\<lparr>kern := gpio_set_value (stepper_gpio_base + (m - 1)) v (kern s)\<rparr>)"
  using assms(1) gpio_write_phase [OF assms(2-4)]
  by (simp add: writeStepperPin_def sys_write_def)

lemma four_writes:
  assumes "steppers_attached s" and "\<forall>i<4. row ! i = 0 \<or> row ! i = 1"
  shows "snd (writeStepperPin STEPPER_DEV4 (row ! 3)
           (snd (writeStepperPin STEPPER_DEV3 (row ! 2)
             (snd (writeStepperPin STEPPER_DEV2 (row ! 1)
               (snd (writeStepperPin STEPPER_DEV1 (row ! 0) s)))))))
         = s\<lparr>kern := write_row row (kern s)\<rparr>"
proof -
  from assms(2) have v: "row ! 0 = 0 \<or> row ! 0 = 1" "row ! 1 = 0 \<or> row ! 1 = 1"
    "row ! 2 = 0 \<or> row ! 2 = 1" "row ! 3 = 0 \<or> row ! 3 = 1"
    by simp_all
  from assms(1) have d: "dev_node s STEPPER_DEV1 = Some 1" "dev_node s STEPPER_DEV2 = Some 2"
     "dev_node s STEPPER_DEV3 = Some 3" "dev_node s STEPPER_DEV4 = Some 4"
    by (simp_all add: steppers_attached_def)
  show ?thesis
    using v
    by (simp add: writeStepperPin_attached d write_row_def stepper_gpio_base_def STEPPER_GPIO_BASE_def)
qed


lemma stepIndex_range: "stepIndex clockwise i \<in> {0, 1, 2, 3}"
proof -
  have "i mod 4 = 0 \<or> i mod 4 = 1 \<or> i mod 4 = 2 \<or> i mod 4 = 3" by presburger
  then show ?thesis by (auto simp: stepIndex_def)
qed

lemma stepSequence_levels: "r \<in> {0, 1, 2, 3} \<Longrightarrow> \<forall>k<4. stepSequence ! nat r ! k = 0 \<or> stepSequence ! nat r ! k = 1"
proof (intro allI impI)
  fix k :: nat assume r: "r \<in> {0, 1, 2, 3}" and "k < 4"
  then have "k = 0 \<or> k = 1 \<or> k = 2 \<or> k = 3" by arith
  with r show "stepSequence ! nat r ! k = 0 \<or> stepSequence ! nat r ! k = 1"
    by (auto simp: stepSequence_def)
qed

lemma rotate_step_attached:
  assumes "steppers_attached s"
  shows "rotate_step clockwise i s
    = usleep STEP_DELAY_US (s\<lparr>kern := write_row (stepSequence ! nat (stepIndex clockwise i)) (kern s)\<rparr>)"
  unfolding rotate_step_def Let_def
  by (subst four_writes [OF assms stepSequence_levels [OF stepIndex_range]]) (rule refl)

lemma timeline_write_row: "timeline (write_row row k) = timeline k @ phase_writes row"
  by (simp add: write_row_def gpio_set_value_def phase_writes_def)

lemma rotate_step_fields:
  assumes "steppers_attached s"
  shows "steppers_attached (rotate_step clockwise i s)"
    and "timeline (kern (rotate_step clockwise i s))
      = timeline (kern s) @ phase_writes (stepSequence ! nat (stepIndex clockwise i)) @ [Usleep 2000]"
    and "stdout (rotate_step clockwise i s) = stdout s"
    and "stderr (rotate_step clockwise i s) = stderr s"
    and "servo_angle (kern (rotate_step clockwise i s)) = servo_angle (kern s)"
proof -
  note r = rotate_step_attached [OF assms]
  show "steppers_attached (rotate_step clockwise i s)"
    using assms unfolding r by (simp add: usleep_def steppers_attached_def)
  show "timeline (kern (rotate_step clockwise i s))
      = timeline (kern s) @ phase_writes (stepSequence ! nat (stepIndex clockwise i)) @ [Usleep 2000]"
    unfolding r by (simp add: usleep_def timeline_write_row STEP_DELAY_US_def)
  show "stdout (rotate_step clockwise i s) = stdout s" "stderr (rotate_step clockwise i s) = stderr s"
    unfolding r by (simp_all add: usleep_def)
  show "servo_angle (kern (rotate_step clockwise i s)) = servo_angle (kern s)"
    unfolding r by (simp add: usleep_def write_row_def gpio_set_value_def)
qed

lemma rotate_loop_fields:
  assumes "steppers_attached s"
  shows "steppers_attached (rotate_loop steps clockwise i s)
    \<and> timeline (kern (rotate_loop steps clockwise i s))
      = timeline (kern s)
        @ concat (map (\<lambda>j. phase_writes (stepSequence ! nat (stepIndex clockwise j)) @ [Usleep 2000])
                    [i..steps - 1])
    \<and> stdout (rotate_loop steps clockwise i s) = stdout s
    \<and> stderr (rotate_loop steps clockwise i s) = stderr s
    \<and> servo_angle (kern (rotate_loop steps clockwise i s)) = servo_angle (kern s)"
  using assms
proof (induction steps clockwise i s rule: rotate_loop.induct)
  case (1 steps clockwise i s)
  show ?case
  proof (cases "i < steps")
    case False
    then have "[i..steps - 1] = []" by simp
    with False "1.prems" show ?thesis
      by (subst (1 2 3 4 5) rotate_loop.simps) simp
  next
    case True
    then have u: "[i..steps - 1] = i # [i + 1..steps - 1]"
      by (intro upto_rec1) simp
    note st = rotate_step_fields [OF "1.prems", of clockwise i]
    from "1.IH" [OF True st(1)] True st show ?thesis
      by (subst (1 2 3 4 5) rotate_loop.simps) (simp add: u)
  qed
qed

lemma resetStepper_attached:
  assumes "steppers_attached s"
  shows "resetStepper s = s\<lparr>kern := write_row [0, 0, 0, 0] (kern s)\<rparr>"
proof -
  have "\<forall>i<4. [0, 0, 0, 0::int] ! i = 0 \<or> [0, 0, 0, 0::int] ! i = 1"
    by (auto simp: nth_Cons split: nat.splits)
  from four_writes [OF assms this] show ?thesis
    by (simp add: resetStepper_def)
qed


lemma rotateStepper_attached:
  assumes "steppers_attached s"
  shows "snd (rotateStepper steps clockwise s)
    = (let s1 = rotate_loop steps clockwise 0 s in
       s1\<lparr>kern := write_row [0, 0, 0, 0] (kern s1),
          stdout := stdout s1 @ [''Stepper rotated '' @ dec steps @ '' steps ''
             @ (if clockwise \<noteq> 0 then ''clockwise'' else ''counter-clockwise'') @ nl]\<rparr>)"
  using rotate_loop_fields [OF assms, of steps clockwise 0]
  by (simp add: rotateStepper_def Let_def resetStepper_attached printf_def)

text \<open>
  C3. With the stepper device files in place, \<^verbatim>\<open>rotateStepper n clockwise\<close> puts on the
  hardware, for \<open>i = 0, ..., n - 1\<close> in this order, row \<open>i mod 4\<close> of the table when
  \<open>clockwise\<close> is set and row \<open>3 - i mod 4\<close> when it is not (each row as four pin writes,
  then the 2000 microsecond sleep), and ends with the four writes of 0. For \<open>n = 8\<close> the
  rows are 0,1,2,3,0,1,2,3 and 3,2,1,0,3,2,1,0.
\<close>

theorem rotate_row_order:
  assumes "steppers_attached s"
  shows "timeline (kern (snd (rotateStepper n clockwise s)))
    = timeline (kern s)
      @ concat (map (\<lambda>i. phase_writes
                            (stepSequence ! nat (if clockwise \<noteq> 0 then i mod 4 else 3 - i mod 4))
                          @ [Usleep 2000])
                  [0..n - 1])
      @ phase_writes [0, 0, 0, 0]"
  using rotate_loop_fields [OF assms, of n clockwise 0]
  by (simp add: rotateStepper_attached [OF assms] Let_def timeline_write_row stepIndex_def)

lemma controller_start_attached: "steppers_attached controller_start"
  by (simp add: steppers_attached_def controller_start_def plat_drv_nodes_def SERVO_DEV_def
      STEPPER_DEV1_def STEPPER_DEV2_def STEPPER_DEV3_def STEPPER_DEV4_def)

lemma upto_0_7: "[0..7::int] = [0, 1, 2, 3, 4, 5, 6, 7]"
  by code_simp

theorem rotate_row_order_witness:
  "timeline (kern (snd (rotateStepper 8 1 controller_start)))
     = timeline (kern controller_start)
       @ concat (map (\<lambda>r. phase_writes (stepSequence ! r) @ [Usleep 2000]) [0, 1, 2, 3, 0, 1, 2, 3])
       @ phase_writes [0, 0, 0, 0]
   \<and> timeline (kern (snd (rotateStepper 8 0 controller_start)))
     = timeline (kern controller_start)
       @ concat (map (\<lambda>r. phase_writes (stepSequence ! r) @ [Usleep 2000]) [3, 2, 1, 0, 3, 2, 1, 0])
       @ phase_writes [0, 0, 0, 0]"
  using rotate_row_order [OF controller_start_attached, of 8 1]
    rotate_row_order [OF controller_start_attached, of 8 0]
  by (simp add: upto_0_7)


lemma write_row_zero_levels:
  "gpio_value (write_row [0, 0, 0, 0] k) = (gpio_value k)(22 := 0, 23 := 0, 24 := 0, 25 := 0)"
  by (simp add: write_row_def gpio_set_value_def)

lemma dec_small: "dec 2 = ''2''" "dec 3 = ''3''" "dec 4 = ''4''"
  by code_simp+

lemma gpio_read_phase_zero:
  assumes "m \<in> {1, 2, 3, 4}" and "gpio_value k (stepper_gpio_base + (m - 1)) = 0"
  shows "fst (gpio_read m 64 64 0 k) = Inr (''Stepper pin '' @ dec m @ '': 0'' @ nl)"
  using assms
  by (auto simp: gpio_read_def gpio_get_value_def Let_def snprintf_def copy_to_user_def
      dec_0 dec_1 dec_small nl_def)

text \<open>
  C4. With the stepper device files in place, for every step count and direction, the
  last four events of \<^verbatim>\<open>rotateStepper\<close> are the writes of 0 to the lines 22..25, after
  everything the stepping loop did; afterwards each of the four lines has level 0 and
  reads back as \<^verbatim>\<open>Stepper pin <id>: 0\<close>. With no steps to make, these four writes are all
  that happens on the hardware.
\<close>

theorem rotate_de_energizes:
  assumes "steppers_attached s"
  shows "(\<forall>m\<in>{1, 2, 3, 4}.
           gpio_get_value (stepper_gpio_base + (m - 1)) (kern (snd (rotateStepper steps clockwise s))) = 0
         \<and> fst (gpio_read m 64 64 0 (kern (snd (rotateStepper steps clockwise s))))
             = Inr (''Stepper pin '' @ dec m @ '': 0'' @ nl))
    \<and> timeline (kern (snd (rotateStepper steps clockwise s)))
        = timeline (kern (rotate_loop steps clockwise 0 s))
          @ [Gpio_set 22 0, Gpio_set 23 0, Gpio_set 24 0, Gpio_set 25 0]
    \<and> (steps \<le> 0 \<longrightarrow>
         timeline (kern (snd (rotateStepper steps clockwise s)))
           = timeline (kern s) @ [Gpio_set 22 0, Gpio_set 23 0, Gpio_set 24 0, Gpio_set 25 0])"
proof -
  let ?s' = "snd (rotateStepper steps clockwise s)"
  let ?s1 = "rotate_loop steps clockwise 0 s"
  have k: "kern ?s' = write_row [0, 0, 0, 0] (kern ?s1)"
    by (simp add: rotateStepper_attached [OF assms] Let_def)
  have lv: "\<And>m. m \<in> {1, 2, 3, 4} \<Longrightarrow> gpio_value (kern ?s') (stepper_gpio_base + (m - 1)) = 0"
    unfolding k write_row_zero_levels
    by (auto simp: stepper_gpio_base_def STEPPER_GPIO_BASE_def)
  have rd: "\<And>m. m \<in> {1, 2, 3, 4} \<Longrightarrow>
      fst (gpio_read m 64 64 0 (kern ?s')) = Inr (''Stepper pin '' @ dec m @ '': 0'' @ nl)"
    by (rule gpio_read_phase_zero) (simp_all only: lv)
  have tl: "timeline (kern ?s') = timeline (kern ?s1)
      @ [Gpio_set 22 0, Gpio_set 23 0, Gpio_set 24 0, Gpio_set 25 0]"
    unfolding k by (simp add: timeline_write_row phase_writes_def)
  have z: "steps \<le> 0 \<Longrightarrow> ?s1 = s"
    by (subst rotate_loop.simps) simp
  have tz: "steps \<le> 0 \<longrightarrow> timeline (kern ?s')
      = timeline (kern s) @ [Gpio_set 22 0, Gpio_set 23 0, Gpio_set 24 0, Gpio_set 25 0]"
    using tl z by simp
  have "\<forall>m\<in>{1, 2, 3, 4}.
      gpio_get_value (stepper_gpio_base + (m - 1)) (kern ?s') = 0
      \<and> fst (gpio_read m 64 64 0 (kern ?s')) = Inr (''Stepper pin '' @ dec m @ '': 0'' @ nl)"
    using lv rd unfolding gpio_get_value_def by blast
  with tl tz show ?thesis by (intro conjI)
qed

theorem rotate_de_energizes_witness:
  "gpio_get_value 22 (kern (snd (rotateStepper 50 1 controller_start))) = 0
   \<and> gpio_get_value 23 (kern (snd (rotateStepper 50 1 controller_start))) = 0
   \<and> gpio_get_value 24 (kern (snd (rotateStepper 50 1 controller_start))) = 0
   \<and> gpio_get_value 25 (kern (snd (rotateStepper 50 1 controller_start))) = 0
   \<and> fst (gpio_read 1 64 64 0 (kern (snd (rotateStepper 50 1 controller_start))))
       = Inr (''Stepper pin 1: 0'' @ nl)
   \<and> timeline (kern (snd (rotateStepper 0 0 controller_start)))
       = timeline (kern controller_start) @ [Gpio_set 22 0, Gpio_set 23 0, Gpio_set 24 0, Gpio_set 25 0]"
proof -
  have lv: "\<forall>m\<in>{1, 2, 3, 4}.
      gpio_get_value (stepper_gpio_base + (m - 1)) (kern (snd (rotateStepper 50 1 controller_start))) = 0
      \<and> fst (gpio_read m 64 64 0 (kern (snd (rotateStepper 50 1 controller_start))))
          = Inr (''Stepper pin '' @ dec m @ '': 0'' @ nl)"
    by (rule rotate_de_energizes [OF controller_start_attached, of 50 1, THEN conjunct1])
  have tz: "timeline (kern (snd (rotateStepper 0 0 controller_start)))
      = timeline (kern controller_start) @ [Gpio_set 22 0, Gpio_set 23 0, Gpio_set 24 0, Gpio_set 25 0]"
    by (rule rotate_de_energizes [OF controller_start_attached, of 0 0, THEN conjunct2,
          THEN conjunct2, THEN mp]) simp
  from lv have "gpio_get_value 22 (kern (snd (rotateStepper 50 1 controller_start))) = 0
      \<and> gpio_get_value 23 (kern (snd (rotateStepper 50 1 controller_start))) = 0
      \<and> gpio_get_value 24 (kern (snd (rotateStepper 50 1 controller_start))) = 0
      \<and> gpio_get_value 25 (kern (snd (rotateStepper 50 1 controller_start))) = 0
      \<and> fst (gpio_read 1 64 64 0 (kern (snd (rotateStepper 50 1 controller_start))))
          = Inr (''Stepper pin 1: 0'' @ nl)"
    by (simp add: stepper_gpio_base_def STEPPER_GPIO_BASE_def dec_1)
  with tz show ?thesis by (simp only: simp_thms)
qed

subsection \<open>Decimal text read back\<close>

lemma isdigit_digit_char: "d < 10 \<Longrightarrow> isdigit (digit_char d)"
  by (simp add: isdigit_def digit_char_def of_char_of)

lemma digit_val_digit_char: "d < 10 \<Longrightarrow> digit_val (digit_char d) = d"
  by (simp add: digit_val_def digit_char_def of_char_of)

lemma digit_char_plain: "d < 10 \<Longrightarrow> digit_char d \<noteq> CHR 0x00 \<and> digit_char d \<noteq> CHR ''-'' \<and> digit_char d \<noteq> CHR ''+''"
  using isdigit_digit_char [of d] by (auto simp: isdigit_def)

lemma dec_nat_digits: "\<forall>c\<in>set (dec_nat n). isdigit c \<and> c \<noteq> CHR 0x00"
proof (induction n rule: dec_nat.induct)
  case (1 n)
  show ?case
  proof (cases "n < 10")
    case True
    then show ?thesis
      using isdigit_digit_char [of n] digit_char_plain [of n] by (subst dec_nat.simps) simp
  next
    case False
    have "n mod 10 < 10" by simp
    with "1.IH" [OF False] False show ?thesis
      using isdigit_digit_char [of "n mod 10"] digit_char_plain [of "n mod 10"]
      by (subst dec_nat.simps) simp
  qed
qed

lemma dec_nat_not_Nil: "dec_nat n \<noteq> []"
  by (subst dec_nat.simps) simp

lemma parse_integer_digits:
  "\<forall>c\<in>set ds. isdigit c \<Longrightarrow>
     parse_integer ds res rv = (foldl (\<lambda>a c. a * 10 + digit_val c) res ds, rv + length ds)"
  by (induction ds arbitrary: res rv) simp_all

lemma dec_nat_value: "foldl (\<lambda>a c. a * 10 + digit_val c) 0 (dec_nat n) = n"
proof (induction n rule: dec_nat.induct)
  case (1 n)
  show ?case
  proof (cases "n < 10")
    case True
    then show ?thesis by (subst dec_nat.simps) (simp add: digit_val_digit_char)
  next
    case False
    with "1.IH" [OF False] show ?thesis
      by (subst dec_nat.simps) (simp add: digit_val_digit_char)
  qed
qed

lemma kstrtoull_dec_nat: "kstrtoull (dec_nat n) = Some n"
  using dec_nat_digits [of n] dec_nat_not_Nil [of n]
  by (simp add: kstrtoull_def parse_integer_digits dec_nat_value)

lemma kstrtoint_dec: "int32 v \<Longrightarrow> kstrtoint (dec v) = Some v"
proof -
  assume v: "int32 v"
  show ?thesis
  proof (cases "v < 0")
    case True
    with v show ?thesis
      by (simp add: kstrtoint_def dec_def kstrtoull_dec_nat int32_def)
  next
    case False
    obtain c cs where d: "dec_nat (nat v) = c # cs"
      using dec_nat_not_Nil [of "nat v"] by (cases "dec_nat (nat v)") auto
    have "isdigit c" using dec_nat_digits [of "nat v"] d by simp
    then have c: "c \<noteq> CHR ''-''" "c \<noteq> CHR ''+''" by (auto simp: isdigit_def)
    have "kstrtoull (c # cs) = Some (nat v)" using kstrtoull_dec_nat [of "nat v"] d by simp
    with False v c show ?thesis
      by (simp add: kstrtoint_def dec_def d int32_def)
  qed
qed

lemma c_str_dec: "c_str (dec v) = dec v"
  using dec_nat_digits [of "nat v"] dec_nat_digits [of "nat (- v)"]
  by (auto simp: c_str_def dec_def takeWhile_eq_all_conv)

text \<open>
  The decimal text of every 32-bit integer passes the length check, the copy and the
  parse of \<^verbatim>\<open>gpio_write\<close>, with its own value.
\<close>

lemma dec_payload:
  assumes "int32 a"
  shows "length (dec a) < 32" and "copy_from_user (dec a) (length (dec a)) = Some (dec a)"
    and "kstrtoint (c_str (dec a)) = Some a"
  using length_dec [OF assms] kstrtoint_dec [OF assms]
  by (simp_all add: copy_from_user_def c_str_dec)

text \<open>
  \<^verbatim>\<open>moveServo\<close> with the servo device file in place: an angle in 0..180 reaches the
  driver as its decimal text and is accepted; any other angle is refused before the
  device is opened.
\<close>

lemma moveServo_in_range:
  assumes "dev_node s SERVO_DEV = Some 0" and "0 \<le> a" and "a \<le> 180"
  shows "moveServo a s
    = (0, s\<lparr>kern := snd (gpio_write 0 (dec a) (length (dec a)) (kern s)),
             stdout := stdout s @ [''Servo moved to '' @ dec a @ '' degrees'' @ nl]\<rparr>)"
    and "servo_angle (kern (snd (moveServo a s))) = a"
    and "timeline (kern (snd (moveServo a s)))
      = timeline (kern s) @ [Gpio_set 18 1, Udelay (duty_cycle a), Gpio_set 18 0, Udelay (20000 - duty_cycle a)]"
proof -
  have i: "int32 a" using assms(2,3) by (simp add: int32_def)
  note p = dec_payload [OF i]
  have sn: "snprintf 16 (dec a) = dec a"
    using length_dec [OF i] by (simp add: snprintf_def)
  note w = gpio_write_servo [OF p, of "kern s"]
  show m: "moveServo a s
    = (0, s\<lparr>kern := snd (gpio_write 0 (dec a) (length (dec a)) (kern s)),
             stdout := stdout s @ [''Servo moved to '' @ dec a @ '' degrees'' @ nl]\<rparr>)"
    using assms w by (simp add: moveServo_def sn sys_write_def printf_def Let_def)
  show "servo_angle (kern (snd (moveServo a s))) = a"
    unfolding m using assms(2,3) w by simp
  show "timeline (kern (snd (moveServo a s)))
      = timeline (kern s) @ [Gpio_set 18 1, Udelay (duty_cycle a), Gpio_set 18 0, Udelay (20000 - duty_cycle a)]"
    unfolding m using assms(2,3) w by simp
qed

lemma moveServo_out_of_range:
  "a < 0 \<or> 180 < a \<Longrightarrow>
     moveServo a s = (- 1, s\<lparr>stderr := stderr s @ [''Error: Servo angle out of range (0-180)'' @ nl]\<rparr>)"
  by (auto simp: moveServo_def)

subsection \<open>The controller loop\<close>

lemma parse_plain_token':
  assumes "tok \<noteq> []" and "length tok \<le> 31" and "\<forall>c\<in>set tok. \<not> isspace c \<and> c \<noteq> CHR 0x00"
  shows "parseSunDirection (''SUN_DIR:'' @ tok) = Some tok"
  using parse_plain_token [OF assms, of "[]"] by simp

lemma fgets_split_line:
  "length l < n \<Longrightarrow> CHR 0x0A \<notin> set l \<Longrightarrow> fgets_split n (l @ CHR 0x0A # rest) = (l @ [CHR 0x0A], rest)"
proof (induction l arbitrary: n)
  case Nil
  then show ?case by (cases n) simp_all
next
  case (Cons c l)
  then show ?case by (cases n) auto
qed

lemma fgets_line:
  assumes "length l < 255" and "CHR 0x0A \<notin> set l"
  shows "fgets 256 (l @ nl @ rest) = Some (l @ nl, rest)"
  using fgets_split_line [OF assms, of rest] by (simp add: fgets_def nl_def)

lemma strip_newline_line:
  assumes "\<forall>c\<in>set l. c \<noteq> CHR 0x00 \<and> c \<noteq> CHR 0x0A \<and> c \<noteq> CHR 0x0D"
  shows "strip_newline (l @ nl) = l"
proof -
  have "c_str (l @ nl) = l @ nl"
    using assms by (auto simp: c_str_def nl_def takeWhile_eq_all_conv)
  then show ?thesis
    using assms by (simp add: strip_newline_def nl_def)
qed

lemma main_iteration_line:
  assumes "tok \<noteq> []" and "length tok \<le> 31" and "\<forall>c\<in>set tok. \<not> isspace c \<and> c \<noteq> CHR 0x00"
  shows "main_iteration (''SUN_DIR:'' @ tok @ nl @ rest, s)
    = (rest, usleep 100000 (act tok (printf (nl @ ''Received direction: '' @ tok @ nl) s)))"
proof -
  let ?l = "''SUN_DIR:'' @ tok"
  have sp: "\<forall>c\<in>set ?l. c \<noteq> CHR 0x00 \<and> c \<noteq> CHR 0x0A \<and> c \<noteq> CHR 0x0D"
    using assms(3) by (auto simp: isspace_def)
  then have n: "CHR 0x0A \<notin> set ?l" by blast
  have len: "length ?l < 255" using assms(2) by simp
  have f: "fgets 256 (?l @ nl @ rest) = Some (?l @ nl, rest)"
    using len n by (rule fgets_line)
  have st: "strip_newline (?l @ nl) = ?l"
    using sp by (rule strip_newline_line)
  have p: "parseSunDirection ?l = Some tok"
    using assms by (rule parse_plain_token')
  have "main_iteration (?l @ nl @ rest, s)
    = (rest, usleep 100000 (act tok (printf (nl @ ''Received direction: '' @ tok @ nl) s)))"
    unfolding main_iteration_def prod.case f option.case st p by (rule refl)
  then show ?thesis by simp
qed


lemma act_table:
  "act ''Venstre'' s = snd (rotateStepper 50 0 (printf (''Action: Rotate LEFT'' @ nl) s))"
  "act ''Hojre'' s = snd (rotateStepper 50 1 (printf (''Action: Rotate RIGHT'' @ nl) s))"
  "act accented_literal s = snd (rotateStepper 50 1 (printf (''Action: Rotate RIGHT'' @ nl) s))"
  "act ''Op'' s = snd (moveServo 90 (printf (''Action: Tilt UP'' @ nl) s))"
  "act ''Ned'' s = snd (moveServo 45 (printf (''Action: Tilt DOWN'' @ nl) s))"
  by (simp_all add: act_def accented_literal_def STEPPER_STEPS_def SERVO_UP_ANGLE_def
      SERVO_DOWN_ANGLE_def)

lemma act_unknown:
  "direction \<notin> {''Venstre'', accented_literal, ''Hojre'', ''Op'', ''Ned''} \<Longrightarrow>
     act direction s = printf (''Action: Unknown direction, no movement'' @ nl) s"
  by (simp add: act_def)

lemma plain_tokens:
  "\<forall>c\<in>set ''Venstre''. \<not> isspace c \<and> c \<noteq> CHR 0x00"
  "\<forall>c\<in>set ''Op''. \<not> isspace c \<and> c \<noteq> CHR 0x00"
  "\<forall>c\<in>set ''Ukendt''. \<not> isspace c \<and> c \<noteq> CHR 0x00"
  "\<forall>c\<in>set hojre_utf8. \<not> isspace c \<and> c \<noteq> CHR 0x00"
  by (simp_all add: isspace_def hojre_utf8_def)

text \<open>
  The three lines \<^verbatim>\<open>SUN_DIR:Venstre\<close>, \<^verbatim>\<open>SUN_DIR:Op\<close>, \<^verbatim>\<open>SUN_DIR:Ukendt\<close>: three passes of the
  loop run \<^verbatim>\<open>rotateStepper(50, 0)\<close> once, then \<^verbatim>\<open>moveServo(90)\<close> once, then nothing but the
  message for an unknown direction.
\<close>

lemma controller_three_lines:
  "main_loop 3 (''SUN_DIR:Venstre'' @ nl @ ''SUN_DIR:Op'' @ nl @ ''SUN_DIR:Ukendt'' @ nl, s)
   = ([],
      usleep 100000
        (printf (''Action: Unknown direction, no movement'' @ nl)
          (printf (nl @ ''Received direction: Ukendt'' @ nl)
            (usleep 100000
              (snd (moveServo 90
                (printf (''Action: Tilt UP'' @ nl)
                  (printf (nl @ ''Received direction: Op'' @ nl)
                    (usleep 100000
                      (snd (rotateStepper 50 0
                        (printf (''Action: Rotate LEFT'' @ nl)
                          (printf (nl @ ''Received direction: Venstre'' @ nl) s)))))))))))))"
proof -
  have u: "''Ukendt'' \<notin> {''Venstre'', accented_literal, ''Hojre'', ''Op'', ''Ned''}"
    by (simp add: accented_literal_def)
  have 1: "\<And>rest s. main_iteration (''SUN_DIR:'' @ ''Venstre'' @ nl @ rest, s)
      = (rest, usleep 100000 (act ''Venstre'' (printf (nl @ ''Received direction: '' @ ''Venstre'' @ nl) s)))"
    by (rule main_iteration_line) (simp_all add: plain_tokens)
  have 2: "\<And>rest s. main_iteration (''SUN_DIR:'' @ ''Op'' @ nl @ rest, s)
      = (rest, usleep 100000 (act ''Op'' (printf (nl @ ''Received direction: '' @ ''Op'' @ nl) s)))"
    by (rule main_iteration_line) (simp_all add: plain_tokens)
  have 3: "\<And>rest s. main_iteration (''SUN_DIR:'' @ ''Ukendt'' @ nl @ rest, s)
      = (rest, usleep 100000 (act ''Ukendt'' (printf (nl @ ''Received direction: '' @ ''Ukendt'' @ nl) s)))"
    by (rule main_iteration_line) (simp_all add: plain_tokens)
  have n: "main_loop 3 st = main_iteration (main_iteration (main_iteration st))" for st
    by (simp add: numeral_3_eq_3)
  show ?thesis
    unfolding n using 1 2 3 [of "[]"] by (simp add: act_table act_unknown [OF u])
qed

text \<open>
  C5. The controller maps \<^verbatim>\<open>Venstre\<close>, \<^verbatim>\<open>Hojre\<close>, \<^verbatim>\<open>Op\<close> and \<^verbatim>\<open>Ned\<close> as claimed (\<open>act_table\<close>,
  \<open>controller_three_lines\<close>), but not the accented spelling of "right": the literal it
  compares with is not the UTF-8 text the firmware sends. With the right sensor the
  brightest (here 100, 900, 200, 300 for left, right, up, down) the firmware's word is
  \<open>hojre_utf8\<close>; on its line the controller prints that the direction is unknown, and the
  only event is the idle sleep of the loop: the stepper is not rotated.
\<close>

theorem utf8_hojre_not_recognised:
  "getSunDirection 100 900 200 300 = hojre_utf8
   \<and> main_iteration (sun_dir_line hojre_utf8, s)
       = ([], usleep 100000
                (printf (''Action: Unknown direction, no movement'' @ nl)
                   (printf (nl @ ''Received direction: '' @ hojre_utf8 @ nl) s)))
   \<and> timeline (kern (snd (main_iteration (sun_dir_line hojre_utf8, s))))
       = timeline (kern s) @ [Usleep 100000]"
proof -
  have u: "hojre_utf8 \<notin> {''Venstre'', accented_literal, ''Hojre'', ''Op'', ''Ned''}"
    by (simp add: accented_literal_def hojre_utf8_def)
  have "main_iteration (''SUN_DIR:'' @ hojre_utf8 @ nl @ [], s)
      = ([], usleep 100000 (act hojre_utf8 (printf (nl @ ''Received direction: '' @ hojre_utf8 @ nl) s)))"
    by (rule main_iteration_line) (simp_all add: plain_tokens, simp_all add: hojre_utf8_def)
  then have m: "main_iteration (sun_dir_line hojre_utf8, s)
       = ([], usleep 100000
                (printf (''Action: Unknown direction, no movement'' @ nl)
                   (printf (nl @ ''Received direction: '' @ hojre_utf8 @ nl) s)))"
    by (simp add: sun_dir_line_def act_unknown [OF u])
  have g: "getSunDirection 100 900 200 300 = hojre_utf8"
    by (simp add: getSunDirection_def)
  have t: "timeline (kern (snd (main_iteration (sun_dir_line hojre_utf8, s))))
       = timeline (kern s) @ [Usleep 100000]"
    unfolding m by (simp add: usleep_def printf_def)
  from g m t show ?thesis by (intro conjI)
qed

end
